theory Spec2Isabelle
  imports Main "HOL-Library.Sublist"
begin

section \<open>Strings as the program uses them\<close>

text \<open>
  JavaScript strings are modelled as \<^typ>\<open>string\<close>, whose characters are the code units
  0 to 255. Template literals render a counter in decimal; \<open>toLowerCase\<close> is modelled on the
  ASCII letters (every other code unit is left as it is, and is not in \<open>[a-z0-9]\<close> either
  way).
\<close>

definition digit_char :: "nat \<Rightarrow> char" where
  "digit_char d = char_of (48 + d)"

definition digit_val :: "char \<Rightarrow> nat" where
  "digit_val c = of_char c - 48"

fun string_of_nat :: "nat \<Rightarrow> string" where
  "string_of_nat n =
     (if n < 10 then [digit_char n]
      else string_of_nat (n div 10) @ [digit_char (n mod 10)])"

declare string_of_nat.simps [simp del]

definition lower_char :: "char \<Rightarrow> char" where
  "lower_char c =
     (let n = (of_char c :: nat) in if 65 \<le> n \<and> n \<le> 90 then char_of (n + 32) else c)"

definition toLowerCase :: "string \<Rightarrow> string" where
  "toLowerCase s = map lower_char s"

definition is_slug_char :: "char \<Rightarrow> bool" where
  "is_slug_char c =
     (let n = (of_char c :: nat) in (97 \<le> n \<and> n \<le> 122) \<or> (48 \<le> n \<and> n \<le> 57))"

text \<open>\<open>s.replace(/[^a-z0-9]+/g, "-")\<close>: every maximal run of other characters becomes one dash.\<close>

function replace_non_slug :: "string \<Rightarrow> string" where
  "replace_non_slug [] = []"
| "replace_non_slug (c # cs) =
     (if is_slug_char c then c # replace_non_slug cs
      else CHR ''-'' # replace_non_slug (dropWhile (\<lambda>x. \<not> is_slug_char x) cs))"
  by pat_completeness auto
termination
  by (relation "measure length") (auto simp: le_imp_less_Suc length_dropWhile_le)

text \<open>\<open>s.replace(/^-+|-+$/g, "")\<close>: leading and trailing dashes are removed.\<close>

definition strip_dashes :: "string \<Rightarrow> string" where
  "strip_dashes s =
     rev (dropWhile (\<lambda>c. c = CHR ''-'') (rev (dropWhile (\<lambda>c. c = CHR ''-'') s)))"

definition slug_base :: "string \<Rightarrow> string" where
  "slug_base name = take 30 (strip_dashes (replace_non_slug (toLowerCase name)))"

text \<open>
  White space as \<open>trimEnd\<close> sees it: the WhiteSpace and LineTerminator code points of
  ECMAScript. Of these TAB, LF, VT, FF, CR, SPACE and NO-BREAK SPACE (U+00A0) are code units
  of \<^typ>\<open>char\<close>; the others (U+1680, U+2000 to U+200A, U+2028, U+2029, U+202F, U+205F,
  U+3000 and U+FEFF) lie beyond it.
\<close>

definition is_space :: "char \<Rightarrow> bool" where
  "is_space c = ((of_char c :: nat) \<in> {9, 10, 11, 12, 13, 32, 160})"

section \<open>The conversation library (src/library)\<close>

record ConversationEntry =
  id_c :: string
  url :: string
  name :: string
  description :: string
  topics :: "string list"
  content_types :: "string list"
  use_cases :: "string list"
  added_at :: string
  last_used :: string
  use_count :: nat
  tags :: "string list option"

record Library =
  conversations :: "ConversationEntry list"
  active_conversation_id :: "string option"
  last_modified :: string
  version :: string

record AddConversationInput =
  in_url :: string
  in_name :: string
  in_description :: string
  in_topics :: "string list"
  in_content_types :: "string list option"
  in_use_cases :: "string list option"
  in_tags :: "string list option"

record UpdateConversationInput =
  up_id :: string
  up_name :: "string option"
  up_description :: "string option"
  up_topics :: "string list option"
  up_content_types :: "string list option"
  up_use_cases :: "string list option"
  up_tags :: "string list option"
  up_url :: "string option"

datatype error =
    TypeError string
  | Error string
  | RateLimitError string
  | IOError string
  | ResourceExhausted string

text \<open>
  \<open>generateId\<close>: the loop \<open>while (conversations.some(n => n.id === id)) { id = `${base}-${counter}`;
  counter++ }\<close> over the ids already in the library.
\<close>

definition id_taken :: "ConversationEntry list \<Rightarrow> string \<Rightarrow> bool" where
  "id_taken cs i = list_ex (\<lambda>n. id_c n = i) cs"

definition candidate :: "string \<Rightarrow> nat \<Rightarrow> string" where
  "candidate base counter = base @ ''-'' @ string_of_nat counter"

function generateId_loop :: "ConversationEntry list \<Rightarrow> string \<Rightarrow> string \<Rightarrow> nat \<Rightarrow> string" where
  "generateId_loop cs base i counter =
     (if id_taken cs i then generateId_loop cs base (candidate base counter) (counter + 1)
      else i)"
  by pat_completeness auto

definition generateId :: "Library \<Rightarrow> string \<Rightarrow> string" where
  "generateId lib nm = generateId_loop (conversations lib) (slug_base nm) (slug_base nm) 1"

text \<open>
  \<open>saveLibrary\<close> stamps \<open>last_modified\<close>, writes the file and only then assigns
  \<open>this.library\<close>; \<open>write_ok\<close> says whether \<open>fs.writeFileSync\<close> succeeds, \<open>now\<close> is
  \<open>new Date().toISOString()\<close>.
\<close>

definition saveLibrary :: "bool \<Rightarrow> string \<Rightarrow> Library \<Rightarrow> error + Library" where
  "saveLibrary write_ok now library =
     (if write_ok then Inr (library\<lparr>last_modified := now\<rparr>)
      else Inl (IOError ''writeFileSync''))"

definition getConversation :: "Library \<Rightarrow> string \<Rightarrow> ConversationEntry option" where
  "getConversation lib i = find (\<lambda>n. id_c n = i) (conversations lib)"

text \<open>\<open>findIndex\<close>: the first index that satisfies the predicate; JavaScript's -1 is \<open>None\<close>.\<close>

fun findIndex :: "('a \<Rightarrow> bool) \<Rightarrow> 'a list \<Rightarrow> nat option" where
  "findIndex P [] = None"
| "findIndex P (x # xs) = (if P x then Some 0 else map_option Suc (findIndex P xs))"

text \<open>\<open>arr[index] = v\<close> for an index from \<open>findIndex\<close>; at -1 no element of the array changes.\<close>

definition set_at :: "nat option \<Rightarrow> 'a \<Rightarrow> 'a list \<Rightarrow> 'a list" where
  "set_at k v xs = (case k of None \<Rightarrow> xs | Some j \<Rightarrow> xs[j := v])"

text \<open>
  Each operation takes \<open>this.library\<close> and returns the new \<open>this.library\<close> with its result.
  \<open>const updated = { ...this.library }\<close> is a shallow copy: \<open>push\<close> and indexed assignment
  go to the array shared with \<open>this.library\<close>, so they stay when \<open>saveLibrary\<close> throws,
  while \<open>active_conversation_id\<close> and a filtered array are lost with the copy.
\<close>

definition addConversation ::
  "bool \<Rightarrow> string \<Rightarrow> AddConversationInput \<Rightarrow> Library \<Rightarrow> Library \<times> (error + ConversationEntry)" where
  "addConversation write_ok now input lib =
     (let i = generateId lib (in_name input);
          conversation = \<lparr>id_c = i, url = in_url input, name = in_name input,
            description = in_description input, topics = in_topics input,
            content_types = (case in_content_types input of Some xs \<Rightarrow> xs
                             | None \<Rightarrow> [''documentation'', ''examples'']),
            use_cases = (case in_use_cases input of Some xs \<Rightarrow> xs
                         | None \<Rightarrow> [''Learning about '' @ in_name input,
                                     ''Implementing features with '' @ in_name input]),
            added_at = now, last_used = now, use_count = 0,
            tags = Some (case in_tags input of Some xs \<Rightarrow> xs | None \<Rightarrow> [])\<rparr>;
          pushed = conversations lib @ [conversation];
          updated = lib\<lparr>conversations := pushed,
            active_conversation_id :=
              (if length pushed = 1 then Some i else active_conversation_id lib)\<rparr>
      in case saveLibrary write_ok now updated of
           Inr saved \<Rightarrow> (saved, Inr conversation)
         | Inl e \<Rightarrow> (lib\<lparr>conversations := pushed\<rparr>, Inl e))"

definition getActiveConversation :: "Library \<Rightarrow> ConversationEntry option" where
  "getActiveConversation lib =
     (case active_conversation_id lib of
        None \<Rightarrow> None
      | Some a \<Rightarrow> if a = [] then None else getConversation lib a)"

definition selectConversation ::
  "bool \<Rightarrow> string \<Rightarrow> string \<Rightarrow> Library \<Rightarrow> Library \<times> (error + ConversationEntry)" where
  "selectConversation write_ok now i lib =
     (case getConversation lib i of
        None \<Rightarrow> (lib, Inl (Error (''Conversation not found: '' @ i)))
      | Some conversation \<Rightarrow>
          (let conversationIndex = findIndex (\<lambda>n. id_c n = i) (conversations lib);
               selected = conversation\<lparr>last_used := now\<rparr>;
               assigned = set_at conversationIndex selected (conversations lib);
               updated = lib\<lparr>conversations := assigned, active_conversation_id := Some i\<rparr>
           in case saveLibrary write_ok now updated of
                Inr saved \<Rightarrow> (saved, Inr selected)
              | Inl e \<Rightarrow> (lib\<lparr>conversations := assigned\<rparr>, Inl e)))"

text \<open>
  \<open>...(input.f && { f: input.f })\<close>: a string field is taken when it is given and not empty,
  an array field when it is given (an empty array is truthy).
\<close>

definition or_keep_string :: "string option \<Rightarrow> string \<Rightarrow> string" where
  "or_keep_string v old = (case v of None \<Rightarrow> old | Some s \<Rightarrow> if s = [] then old else s)"

definition or_keep_array :: "string list option \<Rightarrow> string list \<Rightarrow> string list" where
  "or_keep_array v old = (case v of None \<Rightarrow> old | Some xs \<Rightarrow> xs)"

definition updateConversation ::
  "bool \<Rightarrow> string \<Rightarrow> UpdateConversationInput \<Rightarrow> Library \<Rightarrow> Library \<times> (error + ConversationEntry)" where
  "updateConversation write_ok now input lib =
     (case getConversation lib (up_id input) of
        None \<Rightarrow> (lib, Inl (Error (''Conversation not found: '' @ up_id input)))
      | Some conversation \<Rightarrow>
          (let index = findIndex (\<lambda>n. id_c n = up_id input) (conversations lib);
               merged = conversation\<lparr>
                 name := or_keep_string (up_name input) (name conversation),
                 description := or_keep_string (up_description input) (description conversation),
                 topics := or_keep_array (up_topics input) (topics conversation),
                 content_types := or_keep_array (up_content_types input) (content_types conversation),
                 use_cases := or_keep_array (up_use_cases input) (use_cases conversation),
                 tags := (case up_tags input of None \<Rightarrow> tags conversation | Some xs \<Rightarrow> Some xs),
                 url := or_keep_string (up_url input) (url conversation)\<rparr>;
               assigned = set_at index merged (conversations lib);
               updated = lib\<lparr>conversations := assigned\<rparr>
           in case saveLibrary write_ok now updated of
                Inr saved \<Rightarrow> (saved, Inr merged)
              | Inl e \<Rightarrow> (lib\<lparr>conversations := assigned\<rparr>, Inl e)))"

definition removeConversation ::
  "bool \<Rightarrow> string \<Rightarrow> string \<Rightarrow> Library \<Rightarrow> Library \<times> (error + bool)" where
  "removeConversation write_ok now i lib =
     (case getConversation lib i of
        None \<Rightarrow> (lib, Inr False)
      | Some conversation \<Rightarrow>
          (let remaining = filter (\<lambda>n. id_c n \<noteq> i) (conversations lib);
               updated = lib\<lparr>conversations := remaining,
                 active_conversation_id :=
                   (if active_conversation_id lib = Some i
                    then (case remaining of [] \<Rightarrow> None | first # _ \<Rightarrow> Some (id_c first))
                    else active_conversation_id lib)\<rparr>
           in case saveLibrary write_ok now updated of
                Inr saved \<Rightarrow> (saved, Inr True)
              | Inl e \<Rightarrow> (lib, Inl e)))"

definition incrementUseCount ::
  "bool \<Rightarrow> string \<Rightarrow> string \<Rightarrow> Library \<Rightarrow> Library \<times> (error + ConversationEntry option)" where
  "incrementUseCount write_ok now i lib =
     (case findIndex (\<lambda>n. id_c n = i) (conversations lib) of
        None \<Rightarrow> (lib, Inr None)
      | Some conversationIndex \<Rightarrow>
          (let conversation = conversations lib ! conversationIndex;
               updatedConversation = conversation\<lparr>use_count := use_count conversation + 1,
                 last_used := now\<rparr>;
               assigned = (conversations lib)[conversationIndex := updatedConversation];
               updated = lib\<lparr>conversations := assigned\<rparr>
           in case saveLibrary write_ok now updated of
                Inr saved \<Rightarrow> (saved, Inr (Some updatedConversation))
              | Inl e \<Rightarrow> (lib\<lparr>conversations := assigned\<rparr>, Inl e)))"

text \<open>
  A run of the public operations: each command carries whether its file write succeeds and
  the time stamp it reads. An operation that throws leaves the state it had reached.
\<close>

datatype command =
    Add bool string AddConversationInput
  | Select bool string string
  | Update bool string UpdateConversationInput
  | Remove bool string string
  | Increment bool string string

fun exec :: "command \<Rightarrow> Library \<Rightarrow> Library" where
  "exec (Add write_ok now input) lib = fst (addConversation write_ok now input lib)"
| "exec (Select write_ok now i) lib = fst (selectConversation write_ok now i lib)"
| "exec (Update write_ok now input) lib = fst (updateConversation write_ok now input lib)"
| "exec (Remove write_ok now i) lib = fst (removeConversation write_ok now i lib)"
| "exec (Increment write_ok now i) lib = fst (incrementUseCount write_ok now i lib)"

fun run :: "command list \<Rightarrow> Library \<Rightarrow> Library" where
  "run [] lib = lib"
| "run (c # cs) lib = run cs (exec c lib)"

definition ids :: "Library \<Rightarrow> string list" where
  "ids lib = map id_c (conversations lib)"

definition active_ok :: "Library \<Rightarrow> bool" where
  "active_ok lib =
     (case active_conversation_id lib of None \<Rightarrow> True | Some a \<Rightarrow> a \<in> set (ids lib))"

section \<open>Configuration (config.ts)\<close>

text \<open>
  The fields of \<open>Config\<close> that the library, the session manager and the login flow read,
  with their defaults. The stealth, viewport, path and profile fields are left out.
  \<open>CONFIG\<close> is \<open>DEFAULTS\<close> with the overrides of the environment; what is proved of the
  library is proved for every configuration.
\<close>

record Config =
  geminiUrl :: string
  headless :: bool
  browserTimeout :: int
  maxSessions :: int
  sessionTimeout :: int
  autoLoginEnabled :: bool
  loginEmail :: string
  loginPassword :: string
  autoLoginTimeoutMs :: int
  conversationDescription :: string
  conversationTopics :: "string list"
  conversationContentTypes :: "string list"
  conversationUseCases :: "string list"

definition DEFAULTS :: Config where
  "DEFAULTS = \<lparr>geminiUrl = [], headless = True, browserTimeout = 30000,
     maxSessions = 10, sessionTimeout = 900,
     autoLoginEnabled = False, loginEmail = [], loginPassword = [],
     autoLoginTimeoutMs = 120000,
     conversationDescription = ''General knowledge base'',
     conversationTopics = [''General topics''],
     conversationContentTypes = [''documentation'', ''examples''],
     conversationUseCases = [''General research'']\<rparr>"

section \<open>Constructing the library\<close>

text \<open>
  \<open>createDefaultLibrary\<close> calls \<open>generateId\<close>, which reads \<open>this.library.conversations\<close>;
  \<open>this_library\<close> is the field at the time of the call (\<open>None\<close> while the constructor has
  not assigned it yet). \<open>file\<close> is the parsed content of \<open>library.json\<close> when the file exists
  and parses.
\<close>

definition createDefaultLibrary :: "Library option \<Rightarrow> Config \<Rightarrow> string \<Rightarrow> error + Library" where
  "createDefaultLibrary this_library cfg now =
     (let hasConfig = (geminiUrl cfg \<noteq> [] \<and> conversationDescription cfg \<noteq> [] \<and>
            conversationDescription cfg \<noteq>
              ''General knowledge base - configure CONVERSATION_DESCRIPTION to help Claude understand what's in this conversation'')
      in if hasConfig then
           (case this_library of
              None \<Rightarrow> Inl (TypeError ''Cannot read properties of undefined'')
            | Some lib \<Rightarrow>
                (let i = generateId lib (conversationDescription cfg)
                 in Inr \<lparr>conversations =
                      [\<lparr>id_c = i, url = geminiUrl cfg,
                        name = take 50 (conversationDescription cfg),
                        description = conversationDescription cfg,
                        topics = conversationTopics cfg,
                        content_types = conversationContentTypes cfg,
                        use_cases = conversationUseCases cfg,
                        added_at = now, last_used = now, use_count = 0, tags = Some []\<rparr>],
                      active_conversation_id = Some i,
                      last_modified = now, version = ''1.0.0''\<rparr>))
         else Inr \<lparr>conversations = [], active_conversation_id = None,
                last_modified = now, version = ''1.0.0''\<rparr>)"

definition loadLibrary ::
  "Library option \<Rightarrow> Config \<Rightarrow> bool \<Rightarrow> string \<Rightarrow> Library option \<Rightarrow> error + Library" where
  "loadLibrary this_library cfg write_ok now file =
     (case file of
        Some library \<Rightarrow> Inr library
      | None \<Rightarrow>
          (case createDefaultLibrary this_library cfg now of
             Inl e \<Rightarrow> Inl e
           | Inr defaultLibrary \<Rightarrow> saveLibrary write_ok now defaultLibrary))"

definition newConversationLibrary ::
  "Config \<Rightarrow> bool \<Rightarrow> string \<Rightarrow> Library option \<Rightarrow> error + Library" where
  "newConversationLibrary cfg write_ok now file = loadLibrary None cfg write_ok now file"

section \<open>The session manager\<close>

datatype SessionStatus = Idle | Busy | Closing | Closed

text \<open>
  Modelled from the spec: the Session of the data model (src/session is not among the
  sources). Identity, creation and last-activity time stamps in seconds, message count, bound
  target URL and status; the profile and the browser-process handle are opaque resources of
  the collaborators and carry no field here.
\<close>

record Session =
  sessionId :: string
  createdAt :: int
  lastActivity :: int
  messageCount :: nat
  targetUrl :: "string option"
  status :: SessionStatus

text \<open>
  Modelled from the spec: the SessionManager's registry (an arena keyed by session id, in
  creation order) with the configured maximum session count and idle timeout in seconds.
\<close>

record SessionManager =
  sessions :: "Session list"
  maxCount :: int
  idleTimeout :: int

text \<open>
  Modelled from the spec: \<open>getSession(id)\<close>, the registered session with that id, without
  changing anything.
\<close>

definition getSession :: "SessionManager \<Rightarrow> string \<Rightarrow> Session option" where
  "getSession sm i = find (\<lambda>s. sessionId s = i) (sessions sm)"

text \<open>
  Modelled from the spec: \<open>closeSession(id)\<close> releases the session (waiting for, or forcing the
  end of, an operation in flight), removes it from the registry and returns whether a session
  was found.
\<close>

definition closeSession :: "SessionManager \<Rightarrow> string \<Rightarrow> SessionManager \<times> bool" where
  "closeSession sm i =
     (sm\<lparr>sessions := filter (\<lambda>s. sessionId s \<noteq> i) (sessions sm)\<rparr>, getSession sm i \<noteq> None)"

text \<open>
  Modelled from the spec: \<open>closeSessionsForConversation(url)\<close> closes every session whose bound
  target URL equals the given URL and returns the count closed.
\<close>

definition closeSessionsForConversation ::
  "SessionManager \<Rightarrow> string \<Rightarrow> SessionManager \<times> nat" where
  "closeSessionsForConversation sm u =
     (sm\<lparr>sessions := filter (\<lambda>s. targetUrl s \<noteq> Some u) (sessions sm)\<rparr>,
      length (filter (\<lambda>s. targetUrl s = Some u) (sessions sm)))"

text \<open>
  Modelled from the spec: the least-recently-active idle session, the one the manager evicts
  at capacity (the earliest registered among equals).
\<close>

definition leastRecentlyActiveIdle :: "Session list \<Rightarrow> Session option" where
  "leastRecentlyActiveIdle ss =
     (case filter (\<lambda>s. status s = Idle) ss of
        [] \<Rightarrow> None
      | c # cs \<Rightarrow> Some (fold (\<lambda>s best. if lastActivity s < lastActivity best then s else best) cs c))"

text \<open>
  Modelled from the spec: the creation path of \<open>getOrCreateSession\<close> once capacity is
  available. \<open>acquire\<close> is the outcome of allocating a profile, resolving valid credentials and
  starting the browser process (\<open>Some e\<close> when one of them fails: nothing is registered);
  \<open>generated\<close> is the freshly generated id, used when the caller supplied none.
\<close>

definition newSession :: "string \<Rightarrow> int \<Rightarrow> string option \<Rightarrow> Session" where
  "newSession i now u =
     \<lparr>sessionId = i, createdAt = now, lastActivity = now, messageCount = 0,
      targetUrl = u, status = Idle\<rparr>"

definition createSession ::
  "int \<Rightarrow> string \<Rightarrow> error option \<Rightarrow> string option \<Rightarrow> string option \<Rightarrow> SessionManager
     \<Rightarrow> SessionManager \<times> (error + Session)" where
  "createSession now generated acquire i u sm =
     (case acquire of
        Some e \<Rightarrow> (sm, Inl e)
      | None \<Rightarrow>
          (let s = newSession (case i of Some given \<Rightarrow> given | None \<Rightarrow> generated) now u
           in (sm\<lparr>sessions := sessions sm @ [s]\<rparr>, Inr s)))"

text \<open>
  Modelled from the spec: \<open>getOrCreateSession(id?, targetURL?, headlessOverride?)\<close>. A live
  session with the given id is returned with its activity marked and its target URL changed
  only when one is passed. Otherwise, at or above the maximum count the least-recently-active
  idle session is evicted, and the call fails with \<open>ResourceExhausted\<close> when no session is
  idle; then the session is created and registered.
\<close>

definition getOrCreateSession ::
  "int \<Rightarrow> string \<Rightarrow> error option \<Rightarrow> string option \<Rightarrow> string option \<Rightarrow> bool option
     \<Rightarrow> SessionManager \<Rightarrow> SessionManager \<times> (error + Session)" where
  "getOrCreateSession now generated acquire i u headlessOverride sm =
     (case (case i of
              None \<Rightarrow> None
            | Some given \<Rightarrow>
                find (\<lambda>s. sessionId s = given \<and> (status s = Idle \<or> status s = Busy))
                  (sessions sm)) of
        Some s \<Rightarrow>
          (let touched = s\<lparr>targetUrl := (case u of None \<Rightarrow> targetUrl s | Some v \<Rightarrow> Some v),
                          lastActivity := now\<rparr>
           in (sm\<lparr>sessions :=
                   map (\<lambda>x. if sessionId x = sessionId s then touched else x) (sessions sm)\<rparr>,
               Inr touched))
      | None \<Rightarrow>
          (if maxCount sm \<le> int (length (sessions sm)) then
             (case leastRecentlyActiveIdle (sessions sm) of
                None \<Rightarrow> (sm, Inl (ResourceExhausted ''Maximum sessions reached''))
              | Some victim \<Rightarrow>
                  createSession now generated acquire i u
                    (fst (closeSession sm (sessionId victim))))
           else createSession now generated acquire i u sm))"

text \<open>
  Modelled from the spec: one tick of the background sweep. Every session whose idle duration
  is at least the timeout and whose status is idle is closed as by \<open>closeSession\<close>.
\<close>

definition idleDuration :: "int \<Rightarrow> Session \<Rightarrow> int" where
  "idleDuration now s = now - lastActivity s"

definition sweepExpired :: "int \<Rightarrow> SessionManager \<Rightarrow> Session list" where
  "sweepExpired now sm =
     filter (\<lambda>s. idleTimeout sm \<le> idleDuration now s \<and> status s = Idle) (sessions sm)"

definition sweep :: "int \<Rightarrow> SessionManager \<Rightarrow> SessionManager" where
  "sweep now sm =
     fold (\<lambda>s m. fst (closeSession m (sessionId s))) (sweepExpired now sm) sm"

text \<open>
  Modelled from the spec: an \<open>ask\<close> on a session. It starts on an idle session, which is busy
  while the operation is in flight (a second \<open>ask\<close> on the same session waits, so it starts
  after the first has ended); its end marks the activity, counts the message and leaves the
  session idle.
\<close>

definition beginAsk :: "string \<Rightarrow> SessionManager \<Rightarrow> SessionManager" where
  "beginAsk i sm =
     sm\<lparr>sessions :=
          map (\<lambda>s. if sessionId s = i \<and> status s = Idle then s\<lparr>status := Busy\<rparr> else s)
            (sessions sm)\<rparr>"

definition endAsk :: "int \<Rightarrow> string \<Rightarrow> SessionManager \<Rightarrow> SessionManager" where
  "endAsk now i sm =
     sm\<lparr>sessions :=
          map (\<lambda>s. if sessionId s = i \<and> status s = Busy
                    then s\<lparr>status := Idle, lastActivity := now,
                           messageCount := messageCount s + 1\<rparr>
                    else s)
            (sessions sm)\<rparr>"

text \<open>
  Modelled from the spec: the states of a session manager. It starts with an empty registry
  and changes only through its own operations; a generated id is fresh.
\<close>

inductive reachable :: "SessionManager \<Rightarrow> bool" where
  start: "reachable \<lparr>sessions = [], maxCount = m, idleTimeout = t\<rparr>"
| get_or_create:
    "reachable sm \<Longrightarrow> generated \<notin> set (map sessionId (sessions sm)) \<Longrightarrow>
       reachable (fst (getOrCreateSession now generated acquire i u h sm))"
| close: "reachable sm \<Longrightarrow> reachable (fst (closeSession sm i))"
| close_for_conversation: "reachable sm \<Longrightarrow> reachable (fst (closeSessionsForConversation sm u))"
| begin_ask: "reachable sm \<Longrightarrow> reachable (beginAsk i sm)"
| end_ask: "reachable sm \<Longrightarrow> reachable (endAsk now i sm)"
| sweep_tick: "reachable sm \<Longrightarrow> reachable (sweep now sm)"

text \<open>
  What the registry of every reachable state satisfies: the session ids are pairwise distinct
  and every registered session is idle or busy.
\<close>

definition registry_ok :: "SessionManager \<Rightarrow> bool" where
  "registry_ok sm =
     (distinct (map sessionId (sessions sm)) \<and>
      list_all (\<lambda>s. status s = Idle \<or> status s = Busy) (sessions sm))"

text \<open>
  Modelled from the spec: the scenario of the first testable property, sessions created one
  after the other, each by a \<open>getOrCreateSession\<close> call that supplies its id, at the given
  times, with collaborators that succeed; the run stops at the first call that fails.
\<close>

fun createSessions :: "SessionManager \<Rightarrow> (string \<times> int) list \<Rightarrow> error + SessionManager" where
  "createSessions sm [] = Inr sm"
| "createSessions sm ((i, now) # rest) =
     (case getOrCreateSession now [] None (Some i) None None sm of
        (_, Inl e) \<Rightarrow> Inl e
      | (sm', Inr _) \<Rightarrow> createSessions sm' rest)"

section \<open>Tool handlers (src/tools/handlers.ts)\<close>

record 'a ToolResult =
  success :: bool
  data :: "'a option"
  error :: "string option"

text \<open>
  The calls a handler makes to its collaborators, in order. What \<open>getOrCreateSession\<close> and
  \<open>session.ask\<close> return is given to the handler as functions \<open>gocs\<close> and \<open>ask\<close>.
\<close>

datatype call =
    GetOrCreateSession "string option" "string option" "bool option"
  | Ask string string
  | CloseSessionsForConversation string
  | GetCleanupPaths string bool
  | GetPlatformInfo
  | FormatBytes nat
  | PerformCleanup string bool

record BrowserOptions =
  bo_show :: "bool option"
  bo_headless :: "bool option"

record AskQuestionArgs =
  question :: string
  session_id :: "string option"
  conversation_id :: "string option"
  gemini_url :: "string option"
  show_browser :: "bool option"
  browser_options :: "BrowserOptions option"

record AskQuestionResult =
  r_status :: string
  r_question :: string
  r_answer :: string
  r_session_id :: string
  r_gemini_url :: "string option"
  r_age_seconds :: int
  r_message_count :: nat
  r_last_activity :: int

definition FOLLOW_UP_REMINDER :: string where
  "FOLLOW_UP_REMINDER =
     [CHR 10, CHR 10] @
     ''EXTREMELY IMPORTANT: Is that ALL you need to know? You can always ask another question using the same session ID! Think about it carefully: before you reply to the user, review their original request and this answer. If anything is still unclear or missing, ask me another question first.''"

text \<open>\<open>s.trimEnd()\<close>: the white space at the end of the string is removed.\<close>

definition trimEnd :: "string \<Rightarrow> string" where
  "trimEnd s = rev (dropWhile is_space (rev s))"

text \<open>
  \<open>error instanceof Error ? error.message : String(error)\<close>; \<open>Thrown\<close> is a thrown value that
  is no \<open>Error\<close> object.
\<close>

datatype thrown = Err error | Thrown string

fun message :: "error \<Rightarrow> string" where
  "message (TypeError m) = m"
| "message (Error m) = m"
| "message (RateLimitError m) = m"
| "message (IOError m) = m"
| "message (ResourceExhausted m) = m"

fun errorMessage :: "thrown \<Rightarrow> string" where
  "errorMessage (Err e) = message e"
| "errorMessage (Thrown s) = s"

fun instanceof_RateLimitError :: "thrown \<Rightarrow> bool" where
  "instanceof_RateLimitError (Err (RateLimitError _)) = True"
| "instanceof_RateLimitError _ = False"

definition string_includes :: "string \<Rightarrow> string \<Rightarrow> bool" where
  "string_includes s part = sublist part s"

definition RATE_LIMIT_GUIDANCE :: string where
  "RATE_LIMIT_GUIDANCE =
     ''Gemini App rate limit reached (50 queries/day for free accounts).'' @ [CHR 10, CHR 10] @
     ''You can:'' @ [CHR 10] @
     ''1. Use the 're_auth' tool to login with a different Google account'' @ [CHR 10] @
     ''2. Wait until tomorrow for the quota to reset'' @ [CHR 10] @
     ''3. Upgrade to Google AI Pro/Ultra for 5x higher limits'' @ [CHR 10, CHR 10] @
     ''Original error: ''"

text \<open>The \<open>catch\<close> block of \<open>handleAskQuestion\<close>.\<close>

definition askQuestionCatch :: "thrown \<Rightarrow> AskQuestionResult ToolResult" where
  "askQuestionCatch e =
     (let msg = errorMessage e in
      if instanceof_RateLimitError e \<or> string_includes (toLowerCase msg) ''rate limit''
      then \<lparr>success = False, data = None, error = Some (RATE_LIMIT_GUIDANCE @ msg)\<rparr>
      else \<lparr>success = False, data = None, error = Some msg\<rparr>)"

text \<open>
  The first step of \<open>handleAskQuestion\<close>: \<open>resolvedConversationUrl\<close>. In a condition an
  argument counts when it is given and not the empty string (\<open>truthy\<close>); the branch
  \<open>!resolvedConversationUrl && conversation_id\<close> comes first, \<open>!resolvedConversationUrl\<close>
  second, and otherwise \<open>gemini_url\<close> stays.
\<close>

definition truthy :: "string option \<Rightarrow> string option" where
  "truthy v = (case v of None \<Rightarrow> None | Some s \<Rightarrow> if s = [] then None else Some s)"

definition resolveConversationUrl ::
  "bool \<Rightarrow> string \<Rightarrow> AskQuestionArgs \<Rightarrow> Library \<Rightarrow> Library \<times> (thrown + string option)" where
  "resolveConversationUrl write_ok now args lib =
     (case truthy (gemini_url args) of
        Some _ \<Rightarrow> (lib, Inr (gemini_url args))
      | None \<Rightarrow>
          (case truthy (conversation_id args) of
             Some cid \<Rightarrow>
               (case incrementUseCount write_ok now cid lib of
                  (lib', Inl e) \<Rightarrow> (lib', Inl (Err e))
                | (lib', Inr None) \<Rightarrow>
                    (lib', Inl (Err (Error (''Conversation not found in library: '' @ cid))))
                | (lib', Inr (Some conversation)) \<Rightarrow> (lib', Inr (Some (url conversation))))
           | None \<Rightarrow>
               (case getActiveConversation lib of
                  None \<Rightarrow> (lib, Inr (gemini_url args))
                | Some active \<Rightarrow>
                    (case incrementUseCount write_ok now (id_c active) lib of
                       (lib', Inl e) \<Rightarrow> (lib', Inl (Err e))
                     | (lib', Inr None) \<Rightarrow>
                         (lib', Inl (Err (Error (''Active conversation not found: '' @
                                                 id_c active))))
                     | (lib', Inr (Some conversation)) \<Rightarrow>
                         (lib', Inr (Some (url conversation)))))))"

definition overrideHeadless :: "AskQuestionArgs \<Rightarrow> bool option" where
  "overrideHeadless args =
     (case show_browser args of
        Some b \<Rightarrow> Some b
      | None \<Rightarrow>
          (case browser_options args of
             None \<Rightarrow> None
           | Some bo \<Rightarrow>
               (case bo_show bo of
                  Some s \<Rightarrow> Some s
                | None \<Rightarrow> (case bo_headless bo of Some h \<Rightarrow> Some (\<not> h) | None \<Rightarrow> None))))"

text \<open>
  \<open>handleAskQuestion\<close>. It returns the library, the collaborator calls it made and the tool
  result. The progress callback is optional; the handler is modelled for a call without one
  or with one that returns (an exception of the callback would reach the same \<open>catch\<close>
  block as the other failures). The temporary change of \<open>CONFIG\<close> (undone in \<open>finally\<close>)
  does not influence the result and is left out.
\<close>

definition handleAskQuestion ::
  "bool \<Rightarrow> string
     \<Rightarrow> (string option \<Rightarrow> string option \<Rightarrow> bool option \<Rightarrow> thrown + Session)
     \<Rightarrow> (Session \<Rightarrow> string \<Rightarrow> thrown + string \<times> Session)
     \<Rightarrow> (Session \<Rightarrow> int)
     \<Rightarrow> AskQuestionArgs \<Rightarrow> Library
     \<Rightarrow> Library \<times> call list \<times> AskQuestionResult ToolResult" where
  "handleAskQuestion write_ok now gocs ask age args lib =
     (case resolveConversationUrl write_ok now args lib of
        (lib', Inl e) \<Rightarrow> (lib', [], askQuestionCatch e)
      | (lib', Inr resolvedConversationUrl) \<Rightarrow>
          (let c1 = GetOrCreateSession (session_id args) resolvedConversationUrl
                      (overrideHeadless args)
           in case gocs (session_id args) resolvedConversationUrl (overrideHeadless args) of
                Inl e \<Rightarrow> (lib', [c1], askQuestionCatch e)
              | Inr session \<Rightarrow>
                  (let c2 = Ask (sessionId session) (question args)
                   in case ask session (question args) of
                        Inl e \<Rightarrow> (lib', [c1, c2], askQuestionCatch e)
                      | Inr (rawAnswer, session') \<Rightarrow>
                          (lib', [c1, c2],
                           \<lparr>success = True,
                            data = Some \<lparr>r_status = ''success'', r_question = question args,
                              r_answer = trimEnd rawAnswer @ FOLLOW_UP_REMINDER,
                              r_session_id = sessionId session',
                              r_gemini_url = targetUrl session',
                              r_age_seconds = age session',
                              r_message_count = messageCount session',
                              r_last_activity = lastActivity session'\<rparr>,
                            error = None\<rparr>))))"

text \<open>
  \<open>handleRemoveConversation\<close>, on the library and the session manager. An exception of
  \<open>removeConversation\<close> is caught and reported; when it returns false the handler reports the
  id as not found.
\<close>

record RemoveResult =
  removed :: bool
  closed_sessions :: nat

definition handleRemoveConversation ::
  "bool \<Rightarrow> string \<Rightarrow> string \<Rightarrow> Library \<Rightarrow> SessionManager
     \<Rightarrow> Library \<times> SessionManager \<times> call list \<times> RemoveResult ToolResult" where
  "handleRemoveConversation write_ok now i lib sm =
     (case getConversation lib i of
        None \<Rightarrow>
          (lib, sm, [],
           \<lparr>success = False, data = None, error = Some (''Conversation not found: '' @ i)\<rparr>)
      | Some conversation \<Rightarrow>
          (case removeConversation write_ok now i lib of
             (lib', Inl e) \<Rightarrow>
               (lib', sm, [], \<lparr>success = False, data = None, error = Some (message e)\<rparr>)
           | (lib', Inr False) \<Rightarrow>
               (lib', sm, [],
                \<lparr>success = False, data = None, error = Some (''Conversation not found: '' @ i)\<rparr>)
           | (lib', Inr True) \<Rightarrow>
               (case closeSessionsForConversation sm (url conversation) of
                  (sm', closedSessions) \<Rightarrow>
                    (lib', sm', [CloseSessionsForConversation (url conversation)],
                     \<lparr>success = True,
                      data = Some \<lparr>removed = True, closed_sessions = closedSessions\<rparr>,
                      error = None\<rparr>))))"

section \<open>Cleanup\<close>

text \<open>
  Modelled from the spec: the disk as the cleanup manager sees it (src/utils is not among
  the sources). \<open>entries\<close> are the files and directories that exist, each with the bytes it
  holds itself; \<open>locked\<close> are the paths that the operating system refuses to delete. A
  directory covers itself and every path that continues its own after a separator: deleting
  it removes all of them.
\<close>

record Disk =
  entries :: "(string \<times> nat) list"
  locked :: "string list"

definition covers :: "string \<Rightarrow> string \<Rightarrow> bool" where
  "covers p q = (q = p \<or> prefix (p @ ''/'') q)"

definition exists_on :: "Disk \<Rightarrow> string \<Rightarrow> bool" where
  "exists_on d p = (p \<in> set (map fst (entries d)))"















definition removePath :: "string \<Rightarrow> Disk \<Rightarrow> Disk" where
  "removePath p d = d\<lparr>entries := filter (\<lambda>e. \<not> covers p (fst e)) (entries d)\<rparr>"





section \<open>Termination of the id loop\<close>

lemma digit_val_digit_char: "d < 10 \<Longrightarrow> digit_val (digit_char d) = d"
  by (simp add: digit_val_def digit_char_def)

lemma string_of_nat_nonempty: "string_of_nat n \<noteq> []"
  by (subst string_of_nat.simps) simp

lemma string_of_nat_inj: "string_of_nat n = string_of_nat m \<Longrightarrow> n = m"
proof (induction n arbitrary: m rule: string_of_nat.induct)
  case (1 n)
  show ?case
  proof (cases "n < 10")
    case small_n: True
    show ?thesis
    proof (cases "m < 10")
      case True
      from "1.prems" small_n True have "digit_char n = digit_char m"
        by (simp add: string_of_nat.simps)
      then have "digit_val (digit_char n) = digit_val (digit_char m)" by simp
      with small_n True show ?thesis by (simp add: digit_val_digit_char)
    next
      case False
      then have "string_of_nat m = string_of_nat (m div 10) @ [digit_char (m mod 10)]"
        by (subst string_of_nat.simps) simp
      moreover from small_n have "string_of_nat n = [digit_char n]"
        by (subst string_of_nat.simps) simp
      ultimately have "string_of_nat (m div 10) = []" using "1.prems" by simp
      then show ?thesis by (simp add: string_of_nat_nonempty)
    qed
  next
    case big_n: False
    then have n_eq: "string_of_nat n = string_of_nat (n div 10) @ [digit_char (n mod 10)]"
      by (subst string_of_nat.simps) simp
    show ?thesis
    proof (cases "m < 10")
      case True
      then have "string_of_nat m = [digit_char m]"
        by (subst string_of_nat.simps) simp
      with n_eq "1.prems" have "string_of_nat (n div 10) = []" by simp
      then show ?thesis by (simp add: string_of_nat_nonempty)
    next
      case False
      then have "string_of_nat m = string_of_nat (m div 10) @ [digit_char (m mod 10)]"
        by (subst string_of_nat.simps) simp
      with n_eq "1.prems"
      have init_eq: "string_of_nat (n div 10) = string_of_nat (m div 10)"
        and last_eq: "digit_char (n mod 10) = digit_char (m mod 10)" by simp_all
      from init_eq big_n have "n div 10 = m div 10" by (rule "1.IH"[rotated])
      moreover from last_eq have "digit_val (digit_char (n mod 10)) = digit_val (digit_char (m mod 10))"
        by simp
      then have "n mod 10 = m mod 10" by (simp add: digit_val_digit_char)
      ultimately show ?thesis by (metis div_mult_mod_eq)
    qed
  qed
qed

lemma candidate_inj: "inj (candidate base)"
  by (rule injI) (simp add: candidate_def string_of_nat_inj)

lemma finite_candidates: "finite {k. candidate base k \<in> set taken}"
proof -
  have "finite (candidate base -` set taken)"
    by (rule finite_vimageI) (simp_all add: candidate_inj)
  then show ?thesis by (simp add: vimage_def)
qed


lemma id_taken_iff: "id_taken cs i \<longleftrightarrow> i \<in> set (map id_c cs)"
  by (auto simp: id_taken_def list_ex_iff)

lemma finite_taken_from: "finite {k. c \<le> k \<and> id_taken cs (candidate base k)}"
proof -
  have "{k. c \<le> k \<and> id_taken cs (candidate base k)} \<subseteq> {k. candidate base k \<in> set (map id_c cs)}"
    by (auto simp: id_taken_iff)
  then show ?thesis by (rule finite_subset) (rule finite_candidates)
qed

lemma taken_from_step:
  "{k. c \<le> k \<and> id_taken cs (candidate base k)} =
     (if id_taken cs (candidate base c) then {c} else {}) \<union>
     {k. Suc c \<le> k \<and> id_taken cs (candidate base k)}"
  by (auto simp: Suc_le_eq le_less)

lemma card_taken_from_step:
  "card {k. c \<le> k \<and> id_taken cs (candidate base k)} =
     (if id_taken cs (candidate base c) then 1 else 0) +
     card {k. Suc c \<le> k \<and> id_taken cs (candidate base k)}"
proof (cases "id_taken cs (candidate base c)")
  case True
  have "{k. c \<le> k \<and> id_taken cs (candidate base k)} =
      insert c {k. Suc c \<le> k \<and> id_taken cs (candidate base k)}"
    using True by (subst taken_from_step) simp
  moreover have "c \<notin> {k. Suc c \<le> k \<and> id_taken cs (candidate base k)}" by simp
  ultimately show ?thesis using True finite_taken_from[of "Suc c" cs base]
    by (simp del: insert_iff)
next
  case False
  then show ?thesis by (subst taken_from_step) simp
qed

termination generateId_loop
proof (relation "measure (\<lambda>(cs, base, i, counter).
    card {k. counter \<le> k \<and> id_taken cs (candidate base k)} + (if id_taken cs i then 1 else 0))")
  show "wf (measure (\<lambda>(cs, base, i, counter).
    card {k. counter \<le> k \<and> id_taken cs (candidate base k)} + (if id_taken cs i then 1 else 0)))"
    by simp
next
  fix cs :: "ConversationEntry list" and base i :: string and counter :: nat
  assume "id_taken cs i"
  then show "((cs, base, candidate base counter, counter + 1), cs, base, i, counter)
    \<in> measure (\<lambda>(cs, base, i, counter).
         card {k. counter \<le> k \<and> id_taken cs (candidate base k)} + (if id_taken cs i then 1 else 0))"
    by (simp add: card_taken_from_step[of counter cs base])
qed

declare generateId_loop.simps [simp del]

lemma generateId_loop_fresh: "\<not> id_taken cs (generateId_loop cs base i c)"
proof (induction cs base i c rule: generateId_loop.induct)
  case (1 cs base i counter)
  then show ?case by (subst generateId_loop.simps) simp
qed

lemma generateId_loop_free: "\<not> id_taken cs i \<Longrightarrow> generateId_loop cs base i c = i"
  by (subst generateId_loop.simps) simp

lemma generateId_loop_least:
  "id_taken cs i \<Longrightarrow>
     \<exists>k\<ge>c. generateId_loop cs base i c = candidate base k \<and>
            (\<forall>j. c \<le> j \<and> j < k \<longrightarrow> id_taken cs (candidate base j))"
proof (induction cs base i c rule: generateId_loop.induct)
  case (1 cs base i counter)
  show ?case
  proof (cases "id_taken cs (candidate base counter)")
    case False
    then have "generateId_loop cs base i counter = candidate base counter"
      using "1.prems" by (subst generateId_loop.simps) (simp add: generateId_loop_free)
    then show ?thesis by auto
  next
    case True
    from "1.IH"[OF "1.prems" True] obtain k where k: "counter + 1 \<le> k"
      "generateId_loop cs base (candidate base counter) (counter + 1) = candidate base k"
      "\<forall>j. counter + 1 \<le> j \<and> j < k \<longrightarrow> id_taken cs (candidate base j)" by blast
    have "generateId_loop cs base i counter = candidate base k"
      using "1.prems" k(2) by (subst generateId_loop.simps) simp
    moreover have "\<forall>j. counter \<le> j \<and> j < k \<longrightarrow> id_taken cs (candidate base j)"
    proof (intro allI impI)
      fix j assume "counter \<le> j \<and> j < k"
      then consider "j = counter" | "counter + 1 \<le> j \<and> j < k" by linarith
      then show "id_taken cs (candidate base j)" using True k(3) by cases auto
    qed
    ultimately show ?thesis using k(1) by (intro exI[of _ k]) simp
  qed
qed



section \<open>The library operations on ids and on the active id\<close>

lemma findIndex_Some: "findIndex P xs = Some k \<Longrightarrow> k < length xs \<and> P (xs ! k)"
proof (induction xs arbitrary: k)
  case Nil
  then show ?case by simp
next
  case (Cons x xs)
  then show ?case by (cases "P x") auto
qed

lemma findIndex_None: "findIndex P xs = None \<longleftrightarrow> (\<forall>x \<in> set xs. \<not> P x)"
  by (induction xs) auto

lemma findIndex_find: "findIndex P xs = Some k \<Longrightarrow> find P xs = Some (xs ! k)"
proof (induction xs arbitrary: k)
  case Nil
  then show ?case by simp
next
  case (Cons x xs)
  then show ?case by (cases "P x") auto
qed

lemma find_None_ids: "find (\<lambda>n. id_c n = i) cs = None \<longleftrightarrow> i \<notin> set (map id_c cs)"
  by (auto simp: find_None_iff)

lemma find_Some_id: "find (\<lambda>n. id_c n = i) cs = Some c \<Longrightarrow> id_c c = i"
  by (auto simp: find_Some_iff)

lemma map_id_set_at:
  assumes "findIndex (\<lambda>n. id_c n = i) xs = k" and "id_c v = i"
  shows "map id_c (set_at k v xs) = map id_c xs"
proof (cases k)
  case None
  then show ?thesis by (simp add: set_at_def)
next
  case (Some j)
  with assms(1) have j: "j < length xs" "id_c (xs ! j) = i"
    using findIndex_Some[of "\<lambda>n. id_c n = i" xs j] by simp_all
  have "map id_c (xs[j := v]) = (map id_c xs)[j := id_c (xs ! j)]"
    using assms(2) j(2) by (simp add: map_update)
  also have "\<dots> = map id_c xs"
    using j(1) by (metis list_update_id map_update)
  finally show ?thesis using Some by (simp add: set_at_def)
qed

lemma generateId_fresh: "generateId lib nm \<notin> set (ids lib)"
  using generateId_loop_fresh[of "conversations lib" "slug_base nm" "slug_base nm" 1]
  by (simp add: generateId_def ids_def id_taken_iff)

lemma ids_addConversation:
  "ids (fst (addConversation write_ok now input lib)) = ids lib @ [generateId lib (in_name input)]"
  by (cases write_ok) (simp_all add: addConversation_def saveLibrary_def ids_def Let_def)

lemma active_addConversation:
  "active_conversation_id (fst (addConversation write_ok now input lib)) =
     (if write_ok \<and> conversations lib = [] then Some (generateId lib (in_name input))
      else active_conversation_id lib)"
  by (cases write_ok) (simp_all add: addConversation_def saveLibrary_def Let_def)

lemma ids_selectConversation: "ids (fst (selectConversation write_ok now i lib)) = ids lib"
proof (cases "getConversation lib i")
  case None
  then show ?thesis by (simp add: selectConversation_def)
next
  case (Some c)
  then have "id_c (c\<lparr>last_used := now\<rparr>) = i"
    using find_Some_id[of i "conversations lib" c] by (simp add: getConversation_def)
  then have "map id_c (set_at (findIndex (\<lambda>n. id_c n = i) (conversations lib))
      (c\<lparr>last_used := now\<rparr>) (conversations lib)) = map id_c (conversations lib)"
    by (intro map_id_set_at) simp_all
  with Some show ?thesis
    by (cases write_ok) (simp_all add: selectConversation_def saveLibrary_def ids_def Let_def)
qed

lemma active_selectConversation:
  "active_conversation_id (fst (selectConversation write_ok now i lib)) =
     (if write_ok \<and> i \<in> set (ids lib) then Some i else active_conversation_id lib)"
proof (cases "getConversation lib i")
  case None
  then have "i \<notin> set (ids lib)" by (simp add: getConversation_def find_None_ids ids_def)
  with None show ?thesis by (simp add: selectConversation_def)
next
  case (Some c)
  then have "i \<in> set (ids lib)"
    using find_None_ids[of i "conversations lib"] by (simp add: getConversation_def ids_def)
  with Some show ?thesis
    by (cases write_ok) (simp_all add: selectConversation_def saveLibrary_def Let_def)
qed

lemma ids_updateConversation: "ids (fst (updateConversation write_ok now input lib)) = ids lib"
proof (cases "getConversation lib (up_id input)")
  case None
  then show ?thesis by (simp add: updateConversation_def)
next
  case (Some c)
  define merged where "merged = c\<lparr>
      name := or_keep_string (up_name input) (name c),
      description := or_keep_string (up_description input) (description c),
      topics := or_keep_array (up_topics input) (topics c),
      content_types := or_keep_array (up_content_types input) (content_types c),
      use_cases := or_keep_array (up_use_cases input) (use_cases c),
      tags := (case up_tags input of None \<Rightarrow> tags c | Some xs \<Rightarrow> Some xs),
      url := or_keep_string (up_url input) (url c)\<rparr>"
  from Some have "id_c merged = up_id input"
    using find_Some_id[of "up_id input" "conversations lib" c]
    by (simp add: merged_def getConversation_def)
  then have "map id_c (set_at (findIndex (\<lambda>n. id_c n = up_id input) (conversations lib))
      merged (conversations lib)) = map id_c (conversations lib)"
    by (intro map_id_set_at) simp_all
  with Some show ?thesis
    by (cases write_ok)
      (simp_all add: updateConversation_def saveLibrary_def ids_def Let_def merged_def)
qed

lemma active_updateConversation:
  "active_conversation_id (fst (updateConversation write_ok now input lib)) =
     active_conversation_id lib"
  by (cases "getConversation lib (up_id input)"; cases write_ok)
    (simp_all add: updateConversation_def saveLibrary_def Let_def)

lemma ids_incrementUseCount: "ids (fst (incrementUseCount write_ok now i lib)) = ids lib"
proof (cases "findIndex (\<lambda>n. id_c n = i) (conversations lib)")
  case None
  then show ?thesis by (simp add: incrementUseCount_def)
next
  case (Some k)
  define c where "c = conversations lib ! k"
  have "id_c (c\<lparr>use_count := use_count c + 1, last_used := now\<rparr>) = i"
    using findIndex_Some[OF Some] by (simp add: c_def)
  with Some have "map id_c (set_at (Some k) (c\<lparr>use_count := use_count c + 1, last_used := now\<rparr>)
      (conversations lib)) = map id_c (conversations lib)"
    by (intro map_id_set_at) simp_all
  with Some show ?thesis
    by (cases write_ok)
      (simp_all add: incrementUseCount_def saveLibrary_def ids_def Let_def c_def set_at_def)
qed

lemma active_incrementUseCount:
  "active_conversation_id (fst (incrementUseCount write_ok now i lib)) =
     active_conversation_id lib"
  by (cases "findIndex (\<lambda>n. id_c n = i) (conversations lib)"; cases write_ok)
    (simp_all add: incrementUseCount_def saveLibrary_def Let_def)

lemma ids_removeConversation:
  "ids (fst (removeConversation write_ok now i lib)) =
     (if write_ok then filter (\<lambda>j. j \<noteq> i) (ids lib) else ids lib)"
proof (cases "getConversation lib i")
  case None
  then have "i \<notin> set (ids lib)" by (simp add: getConversation_def find_None_ids ids_def)
  then have "filter (\<lambda>j. j \<noteq> i) (ids lib) = ids lib" by (auto simp: filter_id_conv)
  with None show ?thesis by (simp add: removeConversation_def)
next
  case (Some c)
  then show ?thesis
    by (cases write_ok)
      (simp_all add: removeConversation_def saveLibrary_def ids_def Let_def filter_map comp_def)
qed

lemma active_removeConversation:
  "active_conversation_id (fst (removeConversation write_ok now i lib)) =
     (if write_ok \<and> i \<in> set (ids lib) \<and> active_conversation_id lib = Some i
      then (case filter (\<lambda>n. id_c n \<noteq> i) (conversations lib) of
              [] \<Rightarrow> None | first # _ \<Rightarrow> Some (id_c first))
      else active_conversation_id lib)"
proof (cases "getConversation lib i")
  case None
  then have "i \<notin> set (ids lib)" by (simp add: getConversation_def find_None_ids ids_def)
  with None show ?thesis by (simp add: removeConversation_def)
next
  case (Some c)
  then have "i \<in> set (ids lib)"
    using find_None_ids[of i "conversations lib"] by (simp add: getConversation_def ids_def)
  with Some show ?thesis
    by (cases write_ok) (simp_all add: removeConversation_def saveLibrary_def Let_def)
qed

lemma distinct_exec: "distinct (ids lib) \<Longrightarrow> distinct (ids (exec c lib))"
proof (cases c)
  case (Add write_ok now input)
  assume "distinct (ids lib)"
  then show ?thesis using generateId_fresh[of lib "in_name input"]
    by (simp add: Add ids_addConversation)
qed (simp_all add: ids_selectConversation ids_updateConversation ids_removeConversation
    ids_incrementUseCount)

lemma active_ok_exec: "active_ok lib \<Longrightarrow> active_ok (exec c lib)"
proof (cases c)
  case (Add write_ok now input)
  assume "active_ok lib"
  then show ?thesis
    by (auto simp: Add active_ok_def ids_addConversation active_addConversation
        split: option.splits)
next
  case (Select write_ok now i)
  assume "active_ok lib"
  then show ?thesis
    by (auto simp: Select active_ok_def ids_selectConversation active_selectConversation
        split: option.splits)
next
  case (Update write_ok now input)
  assume "active_ok lib"
  then show ?thesis
    by (simp add: Update active_ok_def ids_updateConversation active_updateConversation
        split: option.splits)
next
  case (Remove write_ok now i)
  assume ok: "active_ok lib"
  show ?thesis
  proof (cases "write_ok \<and> i \<in> set (ids lib) \<and> active_conversation_id lib = Some i")
    case True
    define remaining where "remaining = filter (\<lambda>n. id_c n \<noteq> i) (conversations lib)"
    have "ids (exec c lib) = filter (\<lambda>j. j \<noteq> i) (ids lib)"
      using True by (simp add: Remove ids_removeConversation)
    also have "\<dots> = map id_c remaining"
      by (simp add: ids_def remaining_def filter_map comp_def)
    finally have "ids (exec c lib) = map id_c remaining" .
    moreover have "active_conversation_id (exec c lib) =
        (case remaining of [] \<Rightarrow> None | first # _ \<Rightarrow> Some (id_c first))"
      using True by (simp add: Remove active_removeConversation remaining_def)
    ultimately show ?thesis
      by (cases remaining) (simp_all add: active_ok_def)
  next
    case False
    with ok show ?thesis
      by (auto simp: Remove active_ok_def ids_removeConversation active_removeConversation
          split: option.splits)
  qed
next
  case (Increment write_ok now i)
  assume "active_ok lib"
  then show ?thesis
    by (simp add: Increment active_ok_def ids_incrementUseCount active_incrementUseCount
        split: option.splits)
qed

lemma distinct_run: "distinct (ids lib) \<Longrightarrow> distinct (ids (run cs lib))"
  by (induction cs arbitrary: lib) (simp_all add: distinct_exec)

lemma active_ok_run: "active_ok lib \<Longrightarrow> active_ok (run cs lib)"
  by (induction cs arbitrary: lib) (simp_all add: active_ok_exec)

lemma newConversationLibrary_fresh:
  "newConversationLibrary cfg write_ok now None = Inr lib \<Longrightarrow>
     conversations lib = [] \<and> active_conversation_id lib = None"
  by (auto simp: newConversationLibrary_def loadLibrary_def createDefaultLibrary_def
      saveLibrary_def Let_def split: if_splits)

lemma newConversationLibrary_file:
  "newConversationLibrary cfg write_ok now (Some f) = Inr lib \<Longrightarrow> lib = f"
  by (simp add: newConversationLibrary_def loadLibrary_def)


section \<open>Claims about the library\<close>

text \<open>
  C9. In every library state reached from the constructor by \<open>addConversation\<close>,
  \<open>selectConversation\<close>, \<open>updateConversation\<close>, \<open>removeConversation\<close> and
  \<open>incrementUseCount\<close> (with file writes that succeed or fail), \<open>active_conversation_id\<close>
  is null or the id of an entry of \<open>conversations\<close>; a library file found by the constructor
  is one this program saved, so it has the property too. \<open>selectConversation\<close> throws on an
  id that names no entry and leaves the library as it is; \<open>removeConversation\<close> of the active
  entry makes the first remaining entry active, or none when nothing remains;
  \<open>addConversation\<close> on an empty library makes the new, sole entry active.
\<close>

theorem active_conversation_id_names_an_entry:
  "(newConversationLibrary cfg w0 t0 disk = Inr lib0 \<and>
      (case disk of None \<Rightarrow> True | Some f \<Rightarrow> active_ok f)
      \<longrightarrow> active_ok (run cmds lib0)) \<and>
   (getConversation lib1 i1 = None
      \<longrightarrow> selectConversation w1 t1 i1 lib1 =
            (lib1, Inl (Error (''Conversation not found: '' @ i1)))) \<and>
   (getConversation lib2 i2 \<noteq> None \<and> active_conversation_id lib2 = Some i2
      \<longrightarrow> active_conversation_id (fst (removeConversation True t2 i2 lib2)) =
           (case filter (\<lambda>n. id_c n \<noteq> i2) (conversations lib2) of
              [] \<Rightarrow> None | first # _ \<Rightarrow> Some (id_c first))) \<and>
   (conversations lib3 = []
      \<longrightarrow> (\<exists>c. snd (addConversation True t3 input lib3) = Inr c \<and>
               conversations (fst (addConversation True t3 input lib3)) = [c] \<and>
               active_conversation_id (fst (addConversation True t3 input lib3)) =
                 Some (id_c c)))"
proof (intro conjI impI)
  assume a: "newConversationLibrary cfg w0 t0 disk = Inr lib0 \<and>
      (case disk of None \<Rightarrow> True | Some f \<Rightarrow> active_ok f)"
  have "active_ok lib0"
  proof (cases disk)
    case None
    with a show ?thesis
      using newConversationLibrary_fresh[of cfg w0 t0 lib0] by (simp add: active_ok_def)
  next
    case (Some f)
    with a show ?thesis using newConversationLibrary_file[of cfg w0 t0 f lib0] by simp
  qed
  then show "active_ok (run cmds lib0)" by (rule active_ok_run)
next
  assume "getConversation lib1 i1 = None"
  then show "selectConversation w1 t1 i1 lib1 =
      (lib1, Inl (Error (''Conversation not found: '' @ i1)))"
    by (simp add: selectConversation_def)
next
  assume a: "getConversation lib2 i2 \<noteq> None \<and> active_conversation_id lib2 = Some i2"
  then have "i2 \<in> set (ids lib2)"
    using find_None_ids[of i2 "conversations lib2"] by (simp add: getConversation_def ids_def)
  with a show "active_conversation_id (fst (removeConversation True t2 i2 lib2)) =
           (case filter (\<lambda>n. id_c n \<noteq> i2) (conversations lib2) of
              [] \<Rightarrow> None | first # _ \<Rightarrow> Some (id_c first))"
    by (simp add: active_removeConversation)
next
  assume "conversations lib3 = []"
  then show "\<exists>c. snd (addConversation True t3 input lib3) = Inr c \<and>
               conversations (fst (addConversation True t3 input lib3)) = [c] \<and>
               active_conversation_id (fst (addConversation True t3 input lib3)) = Some (id_c c)"
    by (simp add: addConversation_def saveLibrary_def Let_def)
qed

theorem active_conversation_id_names_an_entry_witness:
  "newConversationLibrary DEFAULTS True ''t0'' None =
     Inr \<lparr>conversations = [], active_conversation_id = None,
          last_modified = ''t0'', version = ''1.0.0''\<rparr> \<and>
   active_ok (run [Add True ''t1'' \<lparr>in_url = ''https://gemini.google.com/app/1'',
                     in_name = ''n8n Docs'', in_description = ''workflows'', in_topics = [],
                     in_content_types = None, in_use_cases = None, in_tags = None\<rparr>,
                   Add False ''t2'' \<lparr>in_url = ''https://gemini.google.com/app/2'',
                     in_name = ''n8n Docs'', in_description = ''more'', in_topics = [],
                     in_content_types = None, in_use_cases = None, in_tags = None\<rparr>,
                   Select True ''t3'' ''n8n-docs-1'',
                   Remove True ''t4'' ''n8n-docs-1'']
              \<lparr>conversations = [], active_conversation_id = None,
               last_modified = ''t0'', version = ''1.0.0''\<rparr>) \<and>
   selectConversation True ''t1'' ''x'' \<lparr>conversations = [], active_conversation_id = None,
       last_modified = ''t0'', version = ''1.0.0''\<rparr> =
     (\<lparr>conversations = [], active_conversation_id = None,
       last_modified = ''t0'', version = ''1.0.0''\<rparr>,
      Inl (Error ''Conversation not found: x'')) \<and>
   active_conversation_id (fst (removeConversation True ''t5'' ''a''
     \<lparr>conversations =
        [\<lparr>id_c = ''a'', url = ''u1'', name = ''A'', description = ''d'', topics = [],
          content_types = [], use_cases = [], added_at = ''t1'', last_used = ''t1'',
          use_count = 0, tags = None\<rparr>,
         \<lparr>id_c = ''b'', url = ''u2'', name = ''B'', description = ''d'', topics = [],
          content_types = [], use_cases = [], added_at = ''t2'', last_used = ''t2'',
          use_count = 0, tags = None\<rparr>],
      active_conversation_id = Some ''a'', last_modified = ''t2'', version = ''1.0.0''\<rparr>))
     = Some ''b'' \<and>
   (\<exists>c. snd (addConversation True ''t1'' \<lparr>in_url = ''u'', in_name = ''A'',
               in_description = ''d'', in_topics = [], in_content_types = None,
               in_use_cases = None, in_tags = None\<rparr>
             \<lparr>conversations = [], active_conversation_id = None,
              last_modified = ''t0'', version = ''1.0.0''\<rparr>) = Inr c \<and>
        active_conversation_id (fst (addConversation True ''t1'' \<lparr>in_url = ''u'',
               in_name = ''A'', in_description = ''d'', in_topics = [],
               in_content_types = None, in_use_cases = None, in_tags = None\<rparr>
             \<lparr>conversations = [], active_conversation_id = None,
              last_modified = ''t0'', version = ''1.0.0''\<rparr>)) = Some (id_c c))"
proof -
  let ?empty = "\<lparr>conversations = [], active_conversation_id = None,
    last_modified = ''t0'', version = ''1.0.0''\<rparr>"
  let ?two = "\<lparr>conversations =
        [\<lparr>id_c = ''a'', url = ''u1'', name = ''A'', description = ''d'', topics = [],
          content_types = [], use_cases = [], added_at = ''t1'', last_used = ''t1'',
          use_count = 0, tags = None\<rparr>,
         \<lparr>id_c = ''b'', url = ''u2'', name = ''B'', description = ''d'', topics = [],
          content_types = [], use_cases = [], added_at = ''t2'', last_used = ''t2'',
          use_count = 0, tags = None\<rparr>],
      active_conversation_id = Some ''a'', last_modified = ''t2'', version = ''1.0.0''\<rparr>"
  have init: "newConversationLibrary DEFAULTS True ''t0'' None = Inr ?empty"
    by (simp add: newConversationLibrary_def loadLibrary_def createDefaultLibrary_def
        saveLibrary_def DEFAULTS_def)
  have none: "getConversation ?empty ''x'' = None"
    by (simp add: getConversation_def)
  have act: "getConversation ?two ''a'' \<noteq> None \<and> active_conversation_id ?two = Some ''a''"
    by (simp add: getConversation_def)
  have emp: "conversations ?empty = []" by simp
  note inst = active_conversation_id_names_an_entry[where cfg = DEFAULTS and ?w0.0 = True
      and ?t0.0 = "''t0''" and disk = None and ?lib0.0 = ?empty
      and ?lib1.0 = ?empty and ?i1.0 = "''x''" and ?w1.0 = True and ?t1.0 = "''t1''"
      and ?lib2.0 = ?two and ?i2.0 = "''a''" and ?t2.0 = "''t5''"
      and ?lib3.0 = ?empty and ?t3.0 = "''t1''"]
  from inst init have c1: "active_ok (run cmds ?empty)" for cmds by simp
  from inst none have c2: "selectConversation True ''t1'' ''x'' ?empty =
      (?empty, Inl (Error ''Conversation not found: x''))" by simp
  from inst act have c3: "active_conversation_id (fst (removeConversation True ''t5'' ''a'' ?two))
      = Some ''b''" by simp
  from inst emp have c4: "\<exists>c. snd (addConversation True ''t1'' input ?empty) = Inr c \<and>
      conversations (fst (addConversation True ''t1'' input ?empty)) = [c] \<and>
      active_conversation_id (fst (addConversation True ''t1'' input ?empty)) = Some (id_c c)"
    for input by simp
  from c4 have c4': "\<exists>c. snd (addConversation True ''t1'' input ?empty) = Inr c \<and>
      active_conversation_id (fst (addConversation True ''t1'' input ?empty)) = Some (id_c c)"
    for input by blast
  show ?thesis using init c1 c2 c3 c4' by (intro conjI) blast+
qed


text \<open>
  C10. The ids of the entries are pairwise distinct in every library state reached from the
  constructor by the five operations (a library file found by the constructor being one
  this program saved). \<open>generateId\<close> returns the slug of the name when no entry has it, and
  otherwise the slug followed by \<open>-k\<close> for the first \<open>k = 1, 2, ...\<close> that no entry has;
  the id it returns is the id of no entry of the library. \<open>addConversation\<close> appends an
  entry with that id; \<open>selectConversation\<close>, \<open>updateConversation\<close> and
  \<open>incrementUseCount\<close> leave the list of ids as it is, \<open>removeConversation\<close> only drops
  the removed id from it.
\<close>

theorem conversation_ids_distinct:
  "(newConversationLibrary cfg w0 t0 disk = Inr lib0 \<and>
      (case disk of None \<Rightarrow> True | Some f \<Rightarrow> distinct (ids f))
      \<longrightarrow> distinct (ids (run cmds lib0))) \<and>
   generateId lib nm \<notin> set (ids lib) \<and>
   (slug_base nm \<notin> set (ids lib) \<longrightarrow> generateId lib nm = slug_base nm) \<and>
   (slug_base nm \<in> set (ids lib) \<longrightarrow>
      (\<exists>k\<ge>1. generateId lib nm = slug_base nm @ ''-'' @ string_of_nat k \<and>
         (\<forall>j. 1 \<le> j \<and> j < k \<longrightarrow> slug_base nm @ ''-'' @ string_of_nat j \<in> set (ids lib)))) \<and>
   ids (fst (addConversation w t input lib)) = ids lib @ [generateId lib (in_name input)] \<and>
   ids (fst (selectConversation w t i lib)) = ids lib \<and>
   ids (fst (updateConversation w t upd lib)) = ids lib \<and>
   ids (fst (incrementUseCount w t i lib)) = ids lib \<and>
   ids (fst (removeConversation w t i lib)) =
     (if w then filter (\<lambda>j. j \<noteq> i) (ids lib) else ids lib)"
proof (intro conjI impI)
  assume a: "newConversationLibrary cfg w0 t0 disk = Inr lib0 \<and>
      (case disk of None \<Rightarrow> True | Some f \<Rightarrow> distinct (ids f))"
  have "distinct (ids lib0)"
  proof (cases disk)
    case None
    with a show ?thesis
      using newConversationLibrary_fresh[of cfg w0 t0 lib0] by (simp add: ids_def)
  next
    case (Some f)
    with a show ?thesis using newConversationLibrary_file[of cfg w0 t0 f lib0] by simp
  qed
  then show "distinct (ids (run cmds lib0))" by (rule distinct_run)
next
  show "generateId lib nm \<notin> set (ids lib)" by (rule generateId_fresh)
next
  assume "slug_base nm \<notin> set (ids lib)"
  then have "\<not> id_taken (conversations lib) (slug_base nm)"
    by (simp add: id_taken_iff ids_def)
  then show "generateId lib nm = slug_base nm"
    by (simp add: generateId_def generateId_loop_free)
next
  assume "slug_base nm \<in> set (ids lib)"
  then have "id_taken (conversations lib) (slug_base nm)"
    by (simp add: id_taken_iff ids_def)
  from generateId_loop_least[OF this, of 1 "slug_base nm"]
  show "\<exists>k\<ge>1. generateId lib nm = slug_base nm @ ''-'' @ string_of_nat k \<and>
         (\<forall>j. 1 \<le> j \<and> j < k \<longrightarrow> slug_base nm @ ''-'' @ string_of_nat j \<in> set (ids lib))"
    by (simp add: generateId_def candidate_def id_taken_iff ids_def)
next
  show "ids (fst (addConversation w t input lib)) = ids lib @ [generateId lib (in_name input)]"
    by (rule ids_addConversation)
next
  show "ids (fst (selectConversation w t i lib)) = ids lib" by (rule ids_selectConversation)
next
  show "ids (fst (updateConversation w t upd lib)) = ids lib" by (rule ids_updateConversation)
next
  show "ids (fst (incrementUseCount w t i lib)) = ids lib" by (rule ids_incrementUseCount)
next
  show "ids (fst (removeConversation w t i lib)) =
     (if w then filter (\<lambda>j. j \<noteq> i) (ids lib) else ids lib)"
    by (rule ids_removeConversation)
qed

theorem conversation_ids_distinct_witness:
  "newConversationLibrary DEFAULTS True ''t0'' None =
     Inr \<lparr>conversations = [], active_conversation_id = None,
          last_modified = ''t0'', version = ''1.0.0''\<rparr> \<and>
   distinct (ids (run [Add True ''t1'' \<lparr>in_url = ''https://gemini.google.com/app/1'',
                     in_name = ''n8n Docs'', in_description = ''workflows'', in_topics = [],
                     in_content_types = None, in_use_cases = None, in_tags = None\<rparr>,
                   Add True ''t2'' \<lparr>in_url = ''https://gemini.google.com/app/2'',
                     in_name = ''N8N: docs!'', in_description = ''more'', in_topics = [],
                     in_content_types = None, in_use_cases = None, in_tags = None\<rparr>]
              \<lparr>conversations = [], active_conversation_id = None,
               last_modified = ''t0'', version = ''1.0.0''\<rparr>)) \<and>
   slug_base ''n8n Docs'' \<notin> set (ids \<lparr>conversations = [], active_conversation_id = None,
          last_modified = ''t0'', version = ''1.0.0''\<rparr>) \<and>
   generateId \<lparr>conversations = [], active_conversation_id = None,
          last_modified = ''t0'', version = ''1.0.0''\<rparr> ''n8n Docs'' = ''n8n-docs'' \<and>
   slug_base ''N8N: docs!'' \<in> set (ids \<lparr>conversations =
        [\<lparr>id_c = ''n8n-docs'', url = ''u1'', name = ''A'', description = ''d'', topics = [],
          content_types = [], use_cases = [], added_at = ''t1'', last_used = ''t1'',
          use_count = 0, tags = None\<rparr>],
      active_conversation_id = Some ''n8n-docs'', last_modified = ''t1'',
      version = ''1.0.0''\<rparr>) \<and>
   (\<exists>k\<ge>1. generateId \<lparr>conversations =
        [\<lparr>id_c = ''n8n-docs'', url = ''u1'', name = ''A'', description = ''d'', topics = [],
          content_types = [], use_cases = [], added_at = ''t1'', last_used = ''t1'',
          use_count = 0, tags = None\<rparr>],
      active_conversation_id = Some ''n8n-docs'', last_modified = ''t1'',
      version = ''1.0.0''\<rparr> ''N8N: docs!'' = ''n8n-docs'' @ ''-'' @ string_of_nat k)"
proof -
  let ?empty = "\<lparr>conversations = [], active_conversation_id = None,
    last_modified = ''t0'', version = ''1.0.0''\<rparr>"
  let ?one = "\<lparr>conversations =
        [\<lparr>id_c = ''n8n-docs'', url = ''u1'', name = ''A'', description = ''d'', topics = [],
          content_types = [], use_cases = [], added_at = ''t1'', last_used = ''t1'',
          use_count = 0, tags = None\<rparr>],
      active_conversation_id = Some ''n8n-docs'', last_modified = ''t1'',
      version = ''1.0.0''\<rparr>"
  have init: "newConversationLibrary DEFAULTS True ''t0'' None = Inr ?empty"
    by (simp add: newConversationLibrary_def loadLibrary_def createDefaultLibrary_def
        saveLibrary_def DEFAULTS_def)
  have slug1: "slug_base ''n8n Docs'' = ''n8n-docs''" by code_simp
  have slug2: "slug_base ''N8N: docs!'' = ''n8n-docs''" by code_simp
  have free: "slug_base ''n8n Docs'' \<notin> set (ids ?empty)" by (simp add: ids_def)
  have taken: "slug_base ''N8N: docs!'' \<in> set (ids ?one)" by (simp add: ids_def slug2)
  note inst1 = conversation_ids_distinct[where cfg = DEFAULTS and ?w0.0 = True
      and ?t0.0 = "''t0''" and disk = None and ?lib0.0 = ?empty
      and lib = ?empty and nm = "''n8n Docs''"]
  note inst2 = conversation_ids_distinct[where lib = ?one and nm = "''N8N: docs!''"]
  from inst1 init have c1: "distinct (ids (run cmds ?empty))" for cmds by simp
  from inst1 free have c2: "generateId ?empty ''n8n Docs'' = ''n8n-docs''"
    by (simp add: slug1)
  from inst2 taken
  have "\<exists>k\<ge>1. generateId ?one ''N8N: docs!'' = slug_base ''N8N: docs!'' @ ''-'' @ string_of_nat k \<and>
         (\<forall>j. 1 \<le> j \<and> j < k \<longrightarrow> slug_base ''N8N: docs!'' @ ''-'' @ string_of_nat j \<in> set (ids ?one))"
    by blast
  then have c3: "\<exists>k\<ge>1. generateId ?one ''N8N: docs!'' = ''n8n-docs'' @ ''-'' @ string_of_nat k"
    unfolding slug2 by blast
  show ?thesis using init c1 free c2 taken c3 by (intro conjI) blast+
qed


section \<open>Claims about the ask_question handler\<close>

lemma trimEnd_decompose: "s = trimEnd s @ rev (takeWhile is_space (rev s))"
proof -
  have "rev (takeWhile is_space (rev s) @ dropWhile is_space (rev s)) = rev (rev s)"
    by (simp only: takeWhile_dropWhile_id)
  then show ?thesis
    unfolding trimEnd_def by (simp only: rev_append rev_rev_ident)
qed

lemma reminder_not_space: "\<exists>c \<in> set FOLLOW_UP_REMINDER. \<not> is_space c"
proof
  show "CHR ''E'' \<in> set FOLLOW_UP_REMINDER" by (simp add: FOLLOW_UP_REMINDER_def)
  show "\<not> is_space (CHR ''E'')" by (simp add: is_space_def)
qed

lemma reminded_answer_differs: "trimEnd raw @ FOLLOW_UP_REMINDER \<noteq> raw"
proof
  assume "trimEnd raw @ FOLLOW_UP_REMINDER = raw"
  then have "trimEnd raw @ FOLLOW_UP_REMINDER = trimEnd raw @ rev (takeWhile is_space (rev raw))"
    using trimEnd_decompose[of raw] by simp
  then have eq: "FOLLOW_UP_REMINDER = rev (takeWhile is_space (rev raw))"
    by (simp only: same_append_eq)
  have "is_space c" if "c \<in> set FOLLOW_UP_REMINDER" for c
  proof -
    from that have "c \<in> set (takeWhile is_space (rev raw))"
      unfolding eq by (simp only: set_rev)
    then show ?thesis by (rule set_takeWhileD[THEN conjunct2])
  qed
  with reminder_not_space show False by blast
qed

lemma guidance_nonempty: "RATE_LIMIT_GUIDANCE \<noteq> []"
  by (simp add: RATE_LIMIT_GUIDANCE_def)

lemma handleAskQuestion_resolve_fails:
  "resolveConversationUrl w now args lib = (lib', Inl e) \<Longrightarrow>
     handleAskQuestion w now gocs ask age args lib = (lib', [], askQuestionCatch e)"
  by (simp add: handleAskQuestion_def)

lemma handleAskQuestion_session_fails:
  "resolveConversationUrl w now args lib = (lib', Inr u) \<Longrightarrow>
   gocs (session_id args) u (overrideHeadless args) = Inl e \<Longrightarrow>
     handleAskQuestion w now gocs ask age args lib =
       (lib', [GetOrCreateSession (session_id args) u (overrideHeadless args)],
        askQuestionCatch e)"
  by (simp add: handleAskQuestion_def)

lemma handleAskQuestion_ask_fails:
  "resolveConversationUrl w now args lib = (lib', Inr u) \<Longrightarrow>
   gocs (session_id args) u (overrideHeadless args) = Inr s \<Longrightarrow>
   ask s (question args) = Inl e \<Longrightarrow>
     handleAskQuestion w now gocs ask age args lib =
       (lib', [GetOrCreateSession (session_id args) u (overrideHeadless args),
               Ask (sessionId s) (question args)],
        askQuestionCatch e)"
  by (simp add: handleAskQuestion_def)

lemma handleAskQuestion_answers:
  "resolveConversationUrl w now args lib = (lib', Inr u) \<Longrightarrow>
   gocs (session_id args) u (overrideHeadless args) = Inr s \<Longrightarrow>
   ask s (question args) = Inr (raw, s') \<Longrightarrow>
     handleAskQuestion w now gocs ask age args lib =
       (lib', [GetOrCreateSession (session_id args) u (overrideHeadless args),
               Ask (sessionId s) (question args)],
        \<lparr>success = True,
         data = Some \<lparr>r_status = ''success'', r_question = question args,
           r_answer = trimEnd raw @ FOLLOW_UP_REMINDER,
           r_session_id = sessionId s', r_gemini_url = targetUrl s',
           r_age_seconds = age s', r_message_count = messageCount s',
           r_last_activity = lastActivity s'\<rparr>,
         error = None\<rparr>)"
  by (simp add: handleAskQuestion_def)

lemma askQuestionCatch_fails: "\<not> success (askQuestionCatch e)"
  by (simp add: askQuestionCatch_def Let_def)

text \<open>
  C5. A failing \<open>ask_question\<close> call failed in the URL resolution, in \<open>getOrCreateSession\<close>
  or in \<open>session.ask\<close>, and its result is what the \<open>catch\<close> block makes of the thrown value.
  For a \<open>RateLimitError\<close>, or a message that contains "rate limit" in any letter case, the
  error returned is the rate-limit text, which names the \<open>re_auth\<close> tool and waiting for the
  quota to reset, followed by the original message; for every other failure it is the
  message itself. The rate-limit text is never equal to the plain message.
\<close>

theorem rate_limit_is_distinguished:
  "(resolveConversationUrl w now args lib = (lib', Inl e)
      \<longrightarrow> snd (snd (handleAskQuestion w now gocs ask age args lib)) = askQuestionCatch e) \<and>
   (resolveConversationUrl w now args lib = (lib', Inr u) \<and>
    gocs (session_id args) u (overrideHeadless args) = Inl e
      \<longrightarrow> snd (snd (handleAskQuestion w now gocs ask age args lib)) = askQuestionCatch e) \<and>
   (resolveConversationUrl w now args lib = (lib', Inr u) \<and>
    gocs (session_id args) u (overrideHeadless args) = Inr s \<and>
    ask s (question args) = Inl e
      \<longrightarrow> snd (snd (handleAskQuestion w now gocs ask age args lib)) = askQuestionCatch e) \<and>
   (\<not> success (snd (snd (handleAskQuestion w now gocs ask age args lib)))
      \<longrightarrow> (\<exists>x. snd (snd (handleAskQuestion w now gocs ask age args lib)) = askQuestionCatch x)) \<and>
   (instanceof_RateLimitError x \<or> string_includes (toLowerCase (errorMessage x)) ''rate limit''
      \<longrightarrow> askQuestionCatch x =
            \<lparr>success = False, data = None,
             error = Some (RATE_LIMIT_GUIDANCE @ errorMessage x)\<rparr> \<and>
          error (askQuestionCatch x) \<noteq> Some (errorMessage x)) \<and>
   (\<not> (instanceof_RateLimitError x \<or>
        string_includes (toLowerCase (errorMessage x)) ''rate limit'')
      \<longrightarrow> askQuestionCatch x = \<lparr>success = False, data = None, error = Some (errorMessage x)\<rparr>) \<and>
   string_includes RATE_LIMIT_GUIDANCE ''re_auth'' \<and>
   string_includes RATE_LIMIT_GUIDANCE ''Wait until tomorrow''"
proof (intro conjI impI)
  assume "resolveConversationUrl w now args lib = (lib', Inl e)"
  then show "snd (snd (handleAskQuestion w now gocs ask age args lib)) = askQuestionCatch e"
    by (simp add: handleAskQuestion_resolve_fails)
next
  assume "resolveConversationUrl w now args lib = (lib', Inr u) \<and>
    gocs (session_id args) u (overrideHeadless args) = Inl e"
  then show "snd (snd (handleAskQuestion w now gocs ask age args lib)) = askQuestionCatch e"
    by (simp add: handleAskQuestion_session_fails)
next
  assume "resolveConversationUrl w now args lib = (lib', Inr u) \<and>
    gocs (session_id args) u (overrideHeadless args) = Inr s \<and>
    ask s (question args) = Inl e"
  then show "snd (snd (handleAskQuestion w now gocs ask age args lib)) = askQuestionCatch e"
    by (simp add: handleAskQuestion_ask_fails)
next
  assume failed: "\<not> success (snd (snd (handleAskQuestion w now gocs ask age args lib)))"
  obtain l r where res: "resolveConversationUrl w now args lib = (l, r)" by (cases "resolveConversationUrl w now args lib")
  show "\<exists>x. snd (snd (handleAskQuestion w now gocs ask age args lib)) = askQuestionCatch x"
  proof (cases r)
    case (Inl x)
    with res show ?thesis by (auto simp: handleAskQuestion_resolve_fails)
  next
    case (Inr v)
    note url = this
    show ?thesis
    proof (cases "gocs (session_id args) v (overrideHeadless args)")
      case (Inl x)
      with res url show ?thesis by (auto simp: handleAskQuestion_session_fails)
    next
      case (Inr session)
      note sess = this
      show ?thesis
      proof (cases "ask session (question args)")
        case (Inl x)
        with res url sess show ?thesis by (auto simp: handleAskQuestion_ask_fails)
      next
        case (Inr answered)
        obtain raw session' where "answered = (raw, session')" by (cases answered)
        with res url sess Inr failed show ?thesis
          by (simp add: handleAskQuestion_answers)
      qed
    qed
  qed
next
  assume "instanceof_RateLimitError x \<or>
    string_includes (toLowerCase (errorMessage x)) ''rate limit''"
  then show "askQuestionCatch x =
      \<lparr>success = False, data = None, error = Some (RATE_LIMIT_GUIDANCE @ errorMessage x)\<rparr>"
    by (simp add: askQuestionCatch_def Let_def)
  then show "error (askQuestionCatch x) \<noteq> Some (errorMessage x)"
    by (simp add: guidance_nonempty)
next
  assume "\<not> (instanceof_RateLimitError x \<or>
    string_includes (toLowerCase (errorMessage x)) ''rate limit'')"
  then show "askQuestionCatch x = \<lparr>success = False, data = None, error = Some (errorMessage x)\<rparr>"
    by (simp add: askQuestionCatch_def Let_def)
next
  show "string_includes RATE_LIMIT_GUIDANCE ''re_auth''" by code_simp
next
  show "string_includes RATE_LIMIT_GUIDANCE ''Wait until tomorrow''" by code_simp
qed


theorem rate_limit_is_distinguished_witness:
  "snd (snd (handleAskQuestion True ''t1''
       (\<lambda>i u h. Inl (Err (RateLimitError ''quota exceeded'')))
       (\<lambda>s q. Inl (Thrown ''unused'')) (\<lambda>s. 0)
       \<lparr>question = ''q'', session_id = None, conversation_id = Some ''nope'',
        gemini_url = None, show_browser = None, browser_options = None\<rparr>
       \<lparr>conversations = [], active_conversation_id = None,
        last_modified = ''t0'', version = ''1.0.0''\<rparr>)) =
     \<lparr>success = False, data = None,
      error = Some ''Conversation not found in library: nope''\<rparr> \<and>
   snd (snd (handleAskQuestion True ''t1''
       (\<lambda>i u h. Inl (Err (RateLimitError ''quota exceeded'')))
       (\<lambda>s q. Inl (Thrown ''unused'')) (\<lambda>s. 0)
       \<lparr>question = ''q'', session_id = None, conversation_id = None,
        gemini_url = Some ''https://gemini.google.com/app/x'', show_browser = None,
        browser_options = None\<rparr>
       \<lparr>conversations = [], active_conversation_id = None,
        last_modified = ''t0'', version = ''1.0.0''\<rparr>)) =
     \<lparr>success = False, data = None,
      error = Some (RATE_LIMIT_GUIDANCE @ ''quota exceeded'')\<rparr> \<and>
   snd (snd (handleAskQuestion True ''t1''
       (\<lambda>i u h. Inr \<lparr>sessionId = ''s1'', createdAt = 0, lastActivity = 0, messageCount = 0,
                     targetUrl = u, status = Idle\<rparr>)
       (\<lambda>s q. Inl (Thrown ''Hit the Rate Limit today'')) (\<lambda>s. 0)
       \<lparr>question = ''q'', session_id = None, conversation_id = None,
        gemini_url = Some ''https://gemini.google.com/app/x'', show_browser = None,
        browser_options = None\<rparr>
       \<lparr>conversations = [], active_conversation_id = None,
        last_modified = ''t0'', version = ''1.0.0''\<rparr>)) =
     \<lparr>success = False, data = None,
      error = Some (RATE_LIMIT_GUIDANCE @ ''Hit the Rate Limit today'')\<rparr> \<and>
   askQuestionCatch (Err (Error ''Timeout waiting for answer'')) =
     \<lparr>success = False, data = None, error = Some ''Timeout waiting for answer''\<rparr>"
proof -
  let ?lib = "\<lparr>conversations = [], active_conversation_id = None,
        last_modified = ''t0'', version = ''1.0.0''\<rparr>"
  let ?nope = "\<lparr>question = ''q'', session_id = None, conversation_id = Some ''nope'',
        gemini_url = None, show_browser = None, browser_options = None\<rparr>"
  let ?adhoc = "\<lparr>question = ''q'', session_id = None, conversation_id = None,
        gemini_url = Some ''https://gemini.google.com/app/x'', show_browser = None,
        browser_options = None\<rparr>"
  let ?limited = "\<lambda>(i :: string option) (u :: string option) (h :: bool option).
        (Inl (Err (RateLimitError ''quota exceeded'')) :: thrown + Session)"
  let ?opens = "\<lambda>(i :: string option) (u :: string option) (h :: bool option).
        (Inr \<lparr>sessionId = ''s1'', createdAt = 0, lastActivity = 0, messageCount = 0,
              targetUrl = u, status = Idle\<rparr> :: thrown + Session)"
  let ?unused = "\<lambda>(s :: Session) (q :: string). (Inl (Thrown ''unused'') :: thrown + string \<times> Session)"
  let ?hits = "\<lambda>(s :: Session) (q :: string).
        (Inl (Thrown ''Hit the Rate Limit today'') :: thrown + string \<times> Session)"
  let ?age = "\<lambda>s :: Session. 0 :: int"
  let ?s1 = "\<lparr>sessionId = ''s1'', createdAt = 0, lastActivity = 0, messageCount = 0,
              targetUrl = Some ''https://gemini.google.com/app/x'', status = Idle\<rparr>"
  have r1: "resolveConversationUrl True ''t1'' ?nope ?lib =
      (?lib, Inl (Err (Error ''Conversation not found in library: nope'')))"
    by (simp add: resolveConversationUrl_def truthy_def incrementUseCount_def)
  have r2: "resolveConversationUrl True ''t1'' ?adhoc ?lib =
      (?lib, Inr (Some ''https://gemini.google.com/app/x''))"
    by (simp add: resolveConversationUrl_def truthy_def)
  have plain1: "\<not> (instanceof_RateLimitError (Err (Error ''Conversation not found in library: nope'')) \<or>
      string_includes (toLowerCase (errorMessage (Err (Error ''Conversation not found in library: nope''))))
        ''rate limit'')"
    by code_simp
  have limited: "instanceof_RateLimitError (Err (RateLimitError ''quota exceeded'')) \<or>
      string_includes (toLowerCase (errorMessage (Err (RateLimitError ''quota exceeded''))))
        ''rate limit''"
    by simp
  have hits: "instanceof_RateLimitError (Thrown ''Hit the Rate Limit today'') \<or>
      string_includes (toLowerCase (errorMessage (Thrown ''Hit the Rate Limit today'')))
        ''rate limit''"
    by code_simp
  have plain2: "\<not> (instanceof_RateLimitError (Err (Error ''Timeout waiting for answer'')) \<or>
      string_includes (toLowerCase (errorMessage (Err (Error ''Timeout waiting for answer''))))
        ''rate limit'')"
    by code_simp
  note a = rate_limit_is_distinguished[where w = True and now = "''t1''" and args = ?nope
      and lib = ?lib and lib' = ?lib
      and e = "Err (Error ''Conversation not found in library: nope'')"
      and x = "Err (Error ''Conversation not found in library: nope'')"
      and gocs = ?limited and ask = ?unused and age = ?age]
  note b = rate_limit_is_distinguished[where w = True and now = "''t1''" and args = ?adhoc
      and lib = ?lib and lib' = ?lib and u = "Some ''https://gemini.google.com/app/x''"
      and e = "Err (RateLimitError ''quota exceeded'')"
      and x = "Err (RateLimitError ''quota exceeded'')"
      and gocs = ?limited and ask = ?unused and age = ?age]
  note c = rate_limit_is_distinguished[where w = True and now = "''t1''" and args = ?adhoc
      and lib = ?lib and lib' = ?lib and u = "Some ''https://gemini.google.com/app/x''"
      and s = ?s1
      and e = "Thrown ''Hit the Rate Limit today''"
      and x = "Thrown ''Hit the Rate Limit today''"
      and gocs = ?opens and ask = ?hits and age = ?age]
  note d = rate_limit_is_distinguished[where x = "Err (Error ''Timeout waiting for answer'')"]
  have c1: "snd (snd (handleAskQuestion True ''t1'' ?limited ?unused ?age ?nope ?lib)) =
      \<lparr>success = False, data = None, error = Some ''Conversation not found in library: nope''\<rparr>"
    using a r1 plain1 by simp
  have c2: "snd (snd (handleAskQuestion True ''t1'' ?limited ?unused ?age ?adhoc ?lib)) =
      \<lparr>success = False, data = None, error = Some (RATE_LIMIT_GUIDANCE @ ''quota exceeded'')\<rparr>"
    using b r2 limited by simp
  have c3: "snd (snd (handleAskQuestion True ''t1'' ?opens ?hits ?age ?adhoc ?lib)) =
      \<lparr>success = False, data = None,
       error = Some (RATE_LIMIT_GUIDANCE @ ''Hit the Rate Limit today'')\<rparr>"
    using c r2 hits by simp
  have c4: "askQuestionCatch (Err (Error ''Timeout waiting for answer'')) =
      \<lparr>success = False, data = None, error = Some ''Timeout waiting for answer''\<rparr>"
    using d plain2 by simp
  show ?thesis using c1 c2 c3 c4 by (intro conjI)
qed

lemma trimEnd_last: "trimEnd s \<noteq> [] \<Longrightarrow> \<not> is_space (last (trimEnd s))"
proof -
  assume "trimEnd s \<noteq> []"
  then have ne: "dropWhile is_space (rev s) \<noteq> []" by (simp add: trimEnd_def)
  then have "\<not> is_space (hd (dropWhile is_space (rev s)))" by (rule hd_dropWhile)
  with ne show ?thesis by (simp add: trimEnd_def last_rev)
qed

lemma trimEnd_cuts_white_space:
  "list_all (\<lambda>c. (of_char c :: nat) \<in> {9, 10, 11, 12, 13, 32, 160})
     (rev (takeWhile is_space (rev s)))"
proof -
  have "is_space c" if "c \<in> set (takeWhile is_space (rev s))" for c
    using that by (rule set_takeWhileD[THEN conjunct2])
  then have "\<forall>c \<in> set (rev (takeWhile is_space (rev s))). is_space c"
    by (simp only: set_rev) blast
  then show ?thesis
    unfolding list_all_iff is_space_def .
qed

text \<open>
  C8. A successful \<open>ask_question\<close> call is one whose URL resolution, \<open>getOrCreateSession\<close>
  and \<open>session.ask\<close> all returned. Its answer is the raw answer of the session without its
  trailing white space, followed by \<open>FOLLOW_UP_REMINDER\<close>; it is never equal to the raw
  answer. What is cut off consists of the code units 9 to 13, 32 and 160 (TAB, LF, VT, FF, CR,
  SPACE, NO-BREAK SPACE) only, and what is left does not end in one of them.
\<close>

theorem answer_carries_follow_up_reminder:
  "(resolveConversationUrl w now args lib = (lib', Inr u) \<and>
    gocs (session_id args) u (overrideHeadless args) = Inr s \<and>
    ask s (question args) = Inr (raw, s')
      \<longrightarrow> (\<exists>d. snd (snd (handleAskQuestion w now gocs ask age args lib)) =
                  \<lparr>success = True, data = Some d, error = None\<rparr> \<and>
               r_answer d = trimEnd raw @ FOLLOW_UP_REMINDER \<and> r_answer d \<noteq> raw)) \<and>
   (success (snd (snd (handleAskQuestion w now gocs ask age args lib)))
      \<longrightarrow> (\<exists>l v session answer session' d.
             resolveConversationUrl w now args lib = (l, Inr v) \<and>
             gocs (session_id args) v (overrideHeadless args) = Inr session \<and>
             ask session (question args) = Inr (answer, session') \<and>
             data (snd (snd (handleAskQuestion w now gocs ask age args lib))) = Some d \<and>
             r_answer d = trimEnd answer @ FOLLOW_UP_REMINDER \<and> r_answer d \<noteq> answer)) \<and>
   (\<exists>ws. raw = trimEnd raw @ ws \<and>
      list_all (\<lambda>c. (of_char c :: nat) \<in> {9, 10, 11, 12, 13, 32, 160}) ws) \<and>
   (trimEnd raw \<noteq> []
      \<longrightarrow> (of_char (last (trimEnd raw)) :: nat) \<notin> {9, 10, 11, 12, 13, 32, 160})"
proof (intro conjI impI)
  assume "resolveConversationUrl w now args lib = (lib', Inr u) \<and>
    gocs (session_id args) u (overrideHeadless args) = Inr s \<and>
    ask s (question args) = Inr (raw, s')"
  then show "\<exists>d. snd (snd (handleAskQuestion w now gocs ask age args lib)) =
                  \<lparr>success = True, data = Some d, error = None\<rparr> \<and>
               r_answer d = trimEnd raw @ FOLLOW_UP_REMINDER \<and> r_answer d \<noteq> raw"
    by (simp add: handleAskQuestion_answers reminded_answer_differs)
next
  assume ok: "success (snd (snd (handleAskQuestion w now gocs ask age args lib)))"
  obtain l r where res: "resolveConversationUrl w now args lib = (l, r)"
    by (cases "resolveConversationUrl w now args lib")
  show "\<exists>l v session answer session' d.
             resolveConversationUrl w now args lib = (l, Inr v) \<and>
             gocs (session_id args) v (overrideHeadless args) = Inr session \<and>
             ask session (question args) = Inr (answer, session') \<and>
             data (snd (snd (handleAskQuestion w now gocs ask age args lib))) = Some d \<and>
             r_answer d = trimEnd answer @ FOLLOW_UP_REMINDER \<and> r_answer d \<noteq> answer"
  proof (cases r)
    case (Inl x)
    with res ok show ?thesis
      by (simp add: handleAskQuestion_resolve_fails askQuestionCatch_fails)
  next
    case (Inr v)
    note url = this
    show ?thesis
    proof (cases "gocs (session_id args) v (overrideHeadless args)")
      case (Inl x)
      with res url ok show ?thesis
        by (simp add: handleAskQuestion_session_fails askQuestionCatch_fails)
    next
      case (Inr session)
      note sess = this
      show ?thesis
      proof (cases "ask session (question args)")
        case (Inl x)
        with res url sess ok show ?thesis
          by (simp add: handleAskQuestion_ask_fails askQuestionCatch_fails)
      next
        case (Inr answered)
        obtain answer session' where "answered = (answer, session')" by (cases answered)
        with res url sess Inr show ?thesis
          by (simp add: handleAskQuestion_answers reminded_answer_differs)
      qed
    qed
  qed
next
  from trimEnd_decompose[of raw] trimEnd_cuts_white_space[of raw]
  show "\<exists>ws. raw = trimEnd raw @ ws \<and>
      list_all (\<lambda>c. (of_char c :: nat) \<in> {9, 10, 11, 12, 13, 32, 160}) ws"
    by blast
next
  assume "trimEnd raw \<noteq> []"
  then have "\<not> is_space (last (trimEnd raw))" by (rule trimEnd_last)
  then show "(of_char (last (trimEnd raw)) :: nat) \<notin> {9, 10, 11, 12, 13, 32, 160}"
    unfolding is_space_def .
qed

theorem answer_carries_follow_up_reminder_witness:
  "(\<exists>d. snd (snd (handleAskQuestion True ''t1''
       (\<lambda>i u h. Inr \<lparr>sessionId = ''s1'', createdAt = 0, lastActivity = 0, messageCount = 0,
                     targetUrl = u, status = Idle\<rparr>)
       (\<lambda>s q. Inr (''Forty-two.'' @ [CHR 0xA0, CHR 0x20, CHR 0x0A],
                    s\<lparr>messageCount := 1, lastActivity := 5\<rparr>))
       (\<lambda>s. 5)
       \<lparr>question = ''q'', session_id = None, conversation_id = None,
        gemini_url = Some ''https://gemini.google.com/app/x'', show_browser = None,
        browser_options = None\<rparr>
       \<lparr>conversations = [], active_conversation_id = None,
        last_modified = ''t0'', version = ''1.0.0''\<rparr>)) =
       \<lparr>success = True, data = Some d, error = None\<rparr> \<and>
     r_answer d = ''Forty-two.'' @ FOLLOW_UP_REMINDER) \<and>
   trimEnd (''Forty-two.'' @ [CHR 0xA0, CHR 0x20, CHR 0x0A]) = ''Forty-two.'' \<and>
   (of_char (last (trimEnd (''Forty-two.'' @ [CHR 0xA0, CHR 0x20, CHR 0x0A]))) :: nat)
     \<notin> {9, 10, 11, 12, 13, 32, 160}"
proof -
  let ?lib = "\<lparr>conversations = [], active_conversation_id = None,
        last_modified = ''t0'', version = ''1.0.0''\<rparr>"
  let ?adhoc = "\<lparr>question = ''q'', session_id = None, conversation_id = None,
        gemini_url = Some ''https://gemini.google.com/app/x'', show_browser = None,
        browser_options = None\<rparr>"
  let ?raw = "''Forty-two.'' @ [CHR 0xA0, CHR 0x20, CHR 0x0A]"
  let ?opens = "\<lambda>(i :: string option) (u :: string option) (h :: bool option).
        (Inr \<lparr>sessionId = ''s1'', createdAt = 0, lastActivity = 0, messageCount = 0,
              targetUrl = u, status = Idle\<rparr> :: thrown + Session)"
  let ?answers = "\<lambda>(s :: Session) (q :: string).
        (Inr (?raw, s\<lparr>messageCount := 1, lastActivity := 5\<rparr>)
          :: thrown + string \<times> Session)"
  let ?age = "\<lambda>s :: Session. 5 :: int"
  let ?s1 = "\<lparr>sessionId = ''s1'', createdAt = 0, lastActivity = 0, messageCount = 0,
              targetUrl = Some ''https://gemini.google.com/app/x'', status = Idle\<rparr>"
  have r: "resolveConversationUrl True ''t1'' ?adhoc ?lib =
      (?lib, Inr (Some ''https://gemini.google.com/app/x''))"
    by (simp add: resolveConversationUrl_def truthy_def)
  have t: "trimEnd ?raw = ''Forty-two.''"
    by (simp add: trimEnd_def is_space_def)
  have h: "resolveConversationUrl True ''t1'' ?adhoc ?lib =
        (?lib, Inr (Some ''https://gemini.google.com/app/x'')) \<and>
      ?opens (session_id ?adhoc) (Some ''https://gemini.google.com/app/x'')
        (overrideHeadless ?adhoc) = Inr ?s1 \<and>
      ?answers ?s1 (question ?adhoc) =
        Inr (?raw, ?s1\<lparr>messageCount := 1, lastActivity := 5\<rparr>)"
    using r by simp
  note inst = answer_carries_follow_up_reminder[where w = True and now = "''t1''"
      and args = ?adhoc and lib = ?lib and lib' = ?lib
      and u = "Some ''https://gemini.google.com/app/x''" and s = ?s1
      and raw = ?raw
      and s' = "?s1\<lparr>messageCount := 1, lastActivity := 5\<rparr>"
      and gocs = ?opens and ask = ?answers and age = ?age]
  from inst[THEN conjunct1] h
  obtain d where d: "snd (snd (handleAskQuestion True ''t1'' ?opens ?answers ?age ?adhoc ?lib)) =
       \<lparr>success = True, data = Some d, error = None\<rparr>"
     "r_answer d = trimEnd ?raw @ FOLLOW_UP_REMINDER"
    by blast
  from d have c1: "\<exists>d. snd (snd (handleAskQuestion True ''t1'' ?opens ?answers ?age ?adhoc ?lib)) =
       \<lparr>success = True, data = Some d, error = None\<rparr> \<and>
     r_answer d = ''Forty-two.'' @ FOLLOW_UP_REMINDER"
    unfolding t by blast
  have ne: "trimEnd ?raw \<noteq> []" unfolding t by simp
  from inst[THEN conjunct2, THEN conjunct2, THEN conjunct2] ne
  have c2: "(of_char (last (trimEnd ?raw)) :: nat) \<notin> {9, 10, 11, 12, 13, 32, 160}"
    by (rule mp)
  show ?thesis using c1 c2 t by (intro conjI)
qed

lemma findIndex_of_find:
  "find P xs = Some x \<Longrightarrow> \<exists>k. findIndex P xs = Some k \<and> xs ! k = x"
proof (cases "findIndex P xs")
  case None
  assume "find P xs = Some x"
  then have "P x \<and> x \<in> set xs" by (auto simp: find_Some_iff)
  with None show ?thesis by (auto simp: findIndex_None)
next
  case (Some k)
  assume "find P xs = Some x"
  with findIndex_find[OF Some] have "xs ! k = x" by simp
  with Some show ?thesis by simp
qed

lemma incrementUseCount_unknown:
  "getConversation lib c = None \<Longrightarrow> incrementUseCount w now c lib = (lib, Inr None)"
proof -
  assume "getConversation lib c = None"
  then have "findIndex (\<lambda>n. id_c n = c) (conversations lib) = None"
    by (simp add: getConversation_def findIndex_None find_None_iff)
  then show ?thesis by (simp add: incrementUseCount_def)
qed

lemma incrementUseCount_known:
  "getConversation lib c = Some entry \<Longrightarrow>
     snd (incrementUseCount True now c lib) =
       Inr (Some (entry\<lparr>use_count := use_count entry + 1, last_used := now\<rparr>))"
proof -
  assume "getConversation lib c = Some entry"
  then obtain k where "findIndex (\<lambda>n. id_c n = c) (conversations lib) = Some k"
    and "conversations lib ! k = entry"
    using findIndex_of_find[of "\<lambda>n. id_c n = c" "conversations lib" entry]
    by (auto simp: getConversation_def)
  then show ?thesis by (simp add: incrementUseCount_def saveLibrary_def Let_def)
qed

lemma getActiveConversation_id:
  "getActiveConversation lib = Some entry \<Longrightarrow> getConversation lib (id_c entry) = Some entry"
proof -
  assume a: "getActiveConversation lib = Some entry"
  then obtain i where i: "active_conversation_id lib = Some i" "getConversation lib i = Some entry"
    by (auto simp: getActiveConversation_def split: option.splits if_splits)
  then have "id_c entry = i" using find_Some_id[of i "conversations lib" entry]
    by (simp add: getConversation_def)
  with i show ?thesis by simp
qed

lemma incrementUseCount_known_pair:
  assumes "getConversation lib c = Some entry"
  obtains l where "incrementUseCount True now c lib =
    (l, Inr (Some (entry\<lparr>use_count := use_count entry + 1, last_used := now\<rparr>)))"
proof -
  obtain l r where lr: "incrementUseCount True now c lib = (l, r)"
    by (cases "incrementUseCount True now c lib")
  with incrementUseCount_known[OF assms, of now]
  have "r = Inr (Some (entry\<lparr>use_count := use_count entry + 1, last_used := now\<rparr>))" by simp
  with lr that show ?thesis by simp
qed

lemma incrementUseCount_write_fails:
  "getConversation lib c = Some entry \<Longrightarrow>
     \<exists>l e. incrementUseCount False now c lib = (l, Inl e)"
proof -
  assume "getConversation lib c = Some entry"
  then obtain k where "findIndex (\<lambda>n. id_c n = c) (conversations lib) = Some k"
    using findIndex_of_find[of "\<lambda>n. id_c n = c" "conversations lib" entry]
    by (auto simp: getConversation_def)
  then show ?thesis by (simp add: incrementUseCount_def saveLibrary_def Let_def)
qed

lemma handleAskQuestion_session_call:
  assumes "GetOrCreateSession i v h \<in>
    set (fst (snd (handleAskQuestion w now gocs ask age args lib)))"
  shows "i = session_id args \<and> snd (resolveConversationUrl w now args lib) = Inr v \<and>
    h = overrideHeadless args"
proof -
  obtain l r where res: "resolveConversationUrl w now args lib = (l, r)"
    by (cases "resolveConversationUrl w now args lib")
  show ?thesis
  proof (cases r)
    case (Inl x)
    with res assms show ?thesis by (simp add: handleAskQuestion_resolve_fails)
  next
    case (Inr u)
    note url = this
    show ?thesis
    proof (cases "gocs (session_id args) u (overrideHeadless args)")
      case (Inl x)
      with res url assms show ?thesis by (simp add: handleAskQuestion_session_fails)
    next
      case (Inr session)
      note sess = this
      show ?thesis
      proof (cases "ask session (question args)")
        case (Inl x)
        with res url sess assms show ?thesis by (simp add: handleAskQuestion_ask_fails)
      next
        case (Inr answered)
        obtain answer session' where "answered = (answer, session')" by (cases answered)
        with res url sess Inr assms show ?thesis by (simp add: handleAskQuestion_answers)
      qed
    qed
  qed
qed

text \<open>
  C7, as the claim states it, fails in three places. An argument that is given but empty
  does not count: with \<open>gemini_url = ""\<close> and a \<open>conversation_id\<close> that names a library entry,
  the URL bound to the session is the entry's, not the explicit \<open>gemini_url\<close> argument; and
  with \<open>conversation_id = ""\<close>, which names no library entry, the call does not fail but asks
  for the session with the active conversation's URL. And a \<open>conversation_id\<close> that names an
  entry does not always lead to a session bound to the entry's URL: when the use count of the
  entry cannot be written to the library file, the call fails before any session is created,
  with an error that is not "Conversation not found in library".
\<close>

theorem empty_gemini_url_does_not_take_precedence:
  "gemini_url \<lparr>question = ''q'', session_id = None, conversation_id = Some ''docs'',
       gemini_url = Some [], show_browser = None, browser_options = None\<rparr> = Some [] \<and>
   fst (snd (handleAskQuestion True ''t1''
       (\<lambda>i u h. Inl (Thrown ''no browser''))
       (\<lambda>s q. Inl (Thrown ''unused'')) (\<lambda>s. 0)
       \<lparr>question = ''q'', session_id = None, conversation_id = Some ''docs'',
        gemini_url = Some [], show_browser = None, browser_options = None\<rparr>
       \<lparr>conversations =
          [\<lparr>id_c = ''docs'', url = ''https://gemini.google.com/app/abc'', name = ''Docs'',
            description = ''d'', topics = [], content_types = [], use_cases = [],
            added_at = ''t0'', last_used = ''t0'', use_count = 0, tags = None\<rparr>],
        active_conversation_id = Some ''docs'', last_modified = ''t0'',
        version = ''1.0.0''\<rparr>)) =
     [GetOrCreateSession None (Some ''https://gemini.google.com/app/abc'') None] \<and>
   getConversation
       \<lparr>conversations =
          [\<lparr>id_c = ''docs'', url = ''https://gemini.google.com/app/abc'', name = ''Docs'',
            description = ''d'', topics = [], content_types = [], use_cases = [],
            added_at = ''t0'', last_used = ''t0'', use_count = 0, tags = None\<rparr>],
        active_conversation_id = Some ''docs'', last_modified = ''t0'',
        version = ''1.0.0''\<rparr> [] = None \<and>
   fst (snd (handleAskQuestion True ''t1''
       (\<lambda>i u h. Inl (Thrown ''no browser''))
       (\<lambda>s q. Inl (Thrown ''unused'')) (\<lambda>s. 0)
       \<lparr>question = ''q'', session_id = None, conversation_id = Some [],
        gemini_url = None, show_browser = None, browser_options = None\<rparr>
       \<lparr>conversations =
          [\<lparr>id_c = ''docs'', url = ''https://gemini.google.com/app/abc'', name = ''Docs'',
            description = ''d'', topics = [], content_types = [], use_cases = [],
            added_at = ''t0'', last_used = ''t0'', use_count = 0, tags = None\<rparr>],
        active_conversation_id = Some ''docs'', last_modified = ''t0'',
        version = ''1.0.0''\<rparr>)) =
     [GetOrCreateSession None (Some ''https://gemini.google.com/app/abc'') None] \<and>
   fst (snd (handleAskQuestion False ''t1''
       (\<lambda>i u h. Inl (Thrown ''no browser''))
       (\<lambda>s q. Inl (Thrown ''unused'')) (\<lambda>s. 0)
       \<lparr>question = ''q'', session_id = None, conversation_id = Some ''docs'',
        gemini_url = None, show_browser = None, browser_options = None\<rparr>
       \<lparr>conversations =
          [\<lparr>id_c = ''docs'', url = ''https://gemini.google.com/app/abc'', name = ''Docs'',
            description = ''d'', topics = [], content_types = [], use_cases = [],
            added_at = ''t0'', last_used = ''t0'', use_count = 0, tags = None\<rparr>],
        active_conversation_id = Some ''docs'', last_modified = ''t0'',
        version = ''1.0.0''\<rparr>)) = [] \<and>
   \<not> success (snd (snd (handleAskQuestion False ''t1''
       (\<lambda>i u h. Inl (Thrown ''no browser''))
       (\<lambda>s q. Inl (Thrown ''unused'')) (\<lambda>s. 0)
       \<lparr>question = ''q'', session_id = None, conversation_id = Some ''docs'',
        gemini_url = None, show_browser = None, browser_options = None\<rparr>
       \<lparr>conversations =
          [\<lparr>id_c = ''docs'', url = ''https://gemini.google.com/app/abc'', name = ''Docs'',
            description = ''d'', topics = [], content_types = [], use_cases = [],
            added_at = ''t0'', last_used = ''t0'', use_count = 0, tags = None\<rparr>],
        active_conversation_id = Some ''docs'', last_modified = ''t0'',
        version = ''1.0.0''\<rparr>)))"
  by (simp add: handleAskQuestion_def resolveConversationUrl_def truthy_def
      getActiveConversation_def getConversation_def incrementUseCount_def saveLibrary_def
      overrideHeadless_def askQuestionCatch_def Let_def)

text \<open>
  C7, amended. The target URL bound to the session is the URL with which the handler asks
  the session manager for the session; every such request of an \<open>ask_question\<close> call carries
  the resolved URL. The URL is resolved in this order: a \<open>gemini_url\<close> argument that is given
  and not empty; else the URL of the library entry named by a \<open>conversation_id\<close> that is given
  and not empty, where an id that names no entry makes the call fail with "Conversation not
  found in library: id" before any session is created; else the URL of the active library
  conversation, the one \<open>getActiveConversation\<close> returns, if one is set; else no URL
  (\<open>gemini_url\<close> as it was passed, missing or empty). The use count of the library entry is
  written first: the URL is the entry's when that write succeeds, and when it fails the call
  fails before any session is created. Whenever the resolution succeeds the handler as
  modelled (its progress callback, if there is one, returning) asks for the session, with
  that URL, and whenever it fails it asks for none.
\<close>

theorem conversation_url_precedence:
  "(truthy (gemini_url args) = Some g
      \<longrightarrow> resolveConversationUrl w now args lib = (lib, Inr (Some g))) \<and>
   (truthy (gemini_url args) = None \<and> truthy (conversation_id args) = Some c \<and>
    getConversation lib c = None
      \<longrightarrow> handleAskQuestion w now gocs ask age args lib =
            (lib, [], askQuestionCatch
               (Err (Error (''Conversation not found in library: '' @ c)))) \<and>
          (\<exists>pre. error (askQuestionCatch
               (Err (Error (''Conversation not found in library: '' @ c)))) =
             Some (pre @ ''Conversation not found in library: '' @ c))) \<and>
   (truthy (gemini_url args) = None \<and> truthy (conversation_id args) = Some c \<and>
    getConversation lib c = Some entry
      \<longrightarrow> snd (resolveConversationUrl True now args lib) = Inr (Some (url entry)) \<and>
          (\<exists>e. snd (resolveConversationUrl False now args lib) = Inl (Err e)) \<and>
          fst (snd (handleAskQuestion False now gocs ask age args lib)) = [] \<and>
          \<not> success (snd (snd (handleAskQuestion False now gocs ask age args lib)))) \<and>
   (truthy (gemini_url args) = None \<and> truthy (conversation_id args) = None \<and>
    getActiveConversation lib = Some entry
      \<longrightarrow> snd (resolveConversationUrl True now args lib) = Inr (Some (url entry)) \<and>
          (\<exists>e. snd (resolveConversationUrl False now args lib) = Inl (Err e)) \<and>
          fst (snd (handleAskQuestion False now gocs ask age args lib)) = [] \<and>
          \<not> success (snd (snd (handleAskQuestion False now gocs ask age args lib)))) \<and>
   (truthy (gemini_url args) = None \<and> truthy (conversation_id args) = None \<and>
    getActiveConversation lib = None
      \<longrightarrow> resolveConversationUrl w now args lib = (lib, Inr (gemini_url args))) \<and>
   (\<forall>i v h. GetOrCreateSession i v h \<in>
              set (fst (snd (handleAskQuestion w now gocs ask age args lib)))
      \<longrightarrow> i = session_id args \<and> snd (resolveConversationUrl w now args lib) = Inr v \<and>
          h = overrideHeadless args) \<and>
   (resolveConversationUrl w now args lib = (lib', Inr u)
      \<longrightarrow> (\<exists>rest. fst (snd (handleAskQuestion w now gocs ask age args lib)) =
             GetOrCreateSession (session_id args) u (overrideHeadless args) # rest)) \<and>
   (resolveConversationUrl w now args lib = (lib', Inl e)
      \<longrightarrow> fst (snd (handleAskQuestion w now gocs ask age args lib)) = [] \<and>
          snd (snd (handleAskQuestion w now gocs ask age args lib)) = askQuestionCatch e)"
proof (intro conjI impI allI)
  assume "truthy (gemini_url args) = Some g"
  then show "resolveConversationUrl w now args lib = (lib, Inr (Some g))"
    by (auto simp: resolveConversationUrl_def truthy_def split: option.splits if_splits)
next
  assume a: "truthy (gemini_url args) = None \<and> truthy (conversation_id args) = Some c \<and>
    getConversation lib c = None"
  then have "resolveConversationUrl w now args lib =
      (lib, Inl (Err (Error (''Conversation not found in library: '' @ c))))"
    by (simp add: resolveConversationUrl_def incrementUseCount_unknown)
  then show "handleAskQuestion w now gocs ask age args lib =
      (lib, [], askQuestionCatch (Err (Error (''Conversation not found in library: '' @ c))))"
    by (rule handleAskQuestion_resolve_fails)
next
  show "\<exists>pre. error (askQuestionCatch
               (Err (Error (''Conversation not found in library: '' @ c)))) =
             Some (pre @ ''Conversation not found in library: '' @ c)"
  proof (cases "string_includes
      (toLowerCase (''Conversation not found in library: '' @ c)) ''rate limit''")
    case True
    then have "error (askQuestionCatch (Err (Error (''Conversation not found in library: '' @ c))))
        = Some (RATE_LIMIT_GUIDANCE @ ''Conversation not found in library: '' @ c)"
      by (simp add: askQuestionCatch_def Let_def)
    then show ?thesis by blast
  next
    case False
    then have "error (askQuestionCatch (Err (Error (''Conversation not found in library: '' @ c))))
        = Some ([] @ ''Conversation not found in library: '' @ c)"
      by (simp add: askQuestionCatch_def Let_def)
    then show ?thesis by blast
  qed
next
  assume a: "truthy (gemini_url args) = None \<and> truthy (conversation_id args) = Some c \<and>
    getConversation lib c = Some entry"
  then obtain l where "incrementUseCount True now c lib =
      (l, Inr (Some (entry\<lparr>use_count := use_count entry + 1, last_used := now\<rparr>)))"
    using incrementUseCount_known_pair[of lib c entry now] by blast
  with a show "snd (resolveConversationUrl True now args lib) = Inr (Some (url entry))"
    by (simp add: resolveConversationUrl_def)
  from a obtain l' e where "incrementUseCount False now c lib = (l', Inl e)"
    using incrementUseCount_write_fails[of lib c entry now] by blast
  with a have r: "resolveConversationUrl False now args lib = (l', Inl (Err e))"
    by (simp add: resolveConversationUrl_def)
  then show "\<exists>e. snd (resolveConversationUrl False now args lib) = Inl (Err e)" by simp
  from r show "fst (snd (handleAskQuestion False now gocs ask age args lib)) = []"
    by (simp add: handleAskQuestion_resolve_fails)
  from r show "\<not> success (snd (snd (handleAskQuestion False now gocs ask age args lib)))"
    by (simp add: handleAskQuestion_resolve_fails askQuestionCatch_fails)
next
  assume a: "truthy (gemini_url args) = None \<and> truthy (conversation_id args) = None \<and>
    getActiveConversation lib = Some entry"
  then have known: "getConversation lib (id_c entry) = Some entry"
    by (simp add: getActiveConversation_id)
  then obtain l where "incrementUseCount True now (id_c entry) lib =
      (l, Inr (Some (entry\<lparr>use_count := use_count entry + 1, last_used := now\<rparr>)))"
    using incrementUseCount_known_pair[of lib "id_c entry" entry now] by blast
  with a show "snd (resolveConversationUrl True now args lib) = Inr (Some (url entry))"
    by (simp add: resolveConversationUrl_def)
  from known obtain l' e where "incrementUseCount False now (id_c entry) lib = (l', Inl e)"
    using incrementUseCount_write_fails[of lib "id_c entry" entry now] by blast
  with a have r: "resolveConversationUrl False now args lib = (l', Inl (Err e))"
    by (simp add: resolveConversationUrl_def)
  then show "\<exists>e. snd (resolveConversationUrl False now args lib) = Inl (Err e)" by simp
  from r show "fst (snd (handleAskQuestion False now gocs ask age args lib)) = []"
    by (simp add: handleAskQuestion_resolve_fails)
  from r show "\<not> success (snd (snd (handleAskQuestion False now gocs ask age args lib)))"
    by (simp add: handleAskQuestion_resolve_fails askQuestionCatch_fails)
next
  assume "truthy (gemini_url args) = None \<and> truthy (conversation_id args) = None \<and>
    getActiveConversation lib = None"
  then show "resolveConversationUrl w now args lib = (lib, Inr (gemini_url args))"
    by (simp add: resolveConversationUrl_def)
next
  fix i v h
  assume m: "GetOrCreateSession i v h \<in>
    set (fst (snd (handleAskQuestion w now gocs ask age args lib)))"
  from handleAskQuestion_session_call[OF m]
  show "i = session_id args" and "snd (resolveConversationUrl w now args lib) = Inr v"
    and "h = overrideHeadless args" by simp_all
next
  assume r: "resolveConversationUrl w now args lib = (lib', Inr u)"
  show "\<exists>rest. fst (snd (handleAskQuestion w now gocs ask age args lib)) =
             GetOrCreateSession (session_id args) u (overrideHeadless args) # rest"
  proof (cases "gocs (session_id args) u (overrideHeadless args)")
    case (Inl x)
    with r show ?thesis by (simp add: handleAskQuestion_session_fails)
  next
    case (Inr session)
    note sess = this
    show ?thesis
    proof (cases "ask session (question args)")
      case (Inl x)
      with r sess show ?thesis by (simp add: handleAskQuestion_ask_fails)
    next
      case (Inr answered)
      obtain answer session' where "answered = (answer, session')" by (cases answered)
      with r sess Inr show ?thesis by (simp add: handleAskQuestion_answers)
    qed
  qed
next
  assume r: "resolveConversationUrl w now args lib = (lib', Inl e)"
  then show "fst (snd (handleAskQuestion w now gocs ask age args lib)) = []"
    by (simp add: handleAskQuestion_resolve_fails)
  from r show "snd (snd (handleAskQuestion w now gocs ask age args lib)) = askQuestionCatch e"
    by (simp add: handleAskQuestion_resolve_fails)
qed

theorem conversation_url_precedence_witness:
  "resolveConversationUrl True ''t1''
       \<lparr>question = ''q'', session_id = None, conversation_id = Some ''docs'',
        gemini_url = Some ''https://gemini.google.com/app/x'', show_browser = None,
        browser_options = None\<rparr>
       \<lparr>conversations =
          [\<lparr>id_c = ''docs'', url = ''https://gemini.google.com/app/abc'', name = ''Docs'',
            description = ''d'', topics = [], content_types = [], use_cases = [],
            added_at = ''t0'', last_used = ''t0'', use_count = 0, tags = None\<rparr>],
        active_conversation_id = Some ''docs'', last_modified = ''t0'',
        version = ''1.0.0''\<rparr> =
     (\<lparr>conversations =
          [\<lparr>id_c = ''docs'', url = ''https://gemini.google.com/app/abc'', name = ''Docs'',
            description = ''d'', topics = [], content_types = [], use_cases = [],
            added_at = ''t0'', last_used = ''t0'', use_count = 0, tags = None\<rparr>],
        active_conversation_id = Some ''docs'', last_modified = ''t0'',
        version = ''1.0.0''\<rparr>,
      Inr (Some ''https://gemini.google.com/app/x'')) \<and>
   fst (snd (handleAskQuestion True ''t1''
       (\<lambda>i u h. Inl (Thrown ''no browser''))
       (\<lambda>s q. Inl (Thrown ''unused'')) (\<lambda>s. 0)
       \<lparr>question = ''q'', session_id = None, conversation_id = Some ''nope'',
        gemini_url = None, show_browser = None,
        browser_options = None\<rparr>
       \<lparr>conversations =
          [\<lparr>id_c = ''docs'', url = ''https://gemini.google.com/app/abc'', name = ''Docs'',
            description = ''d'', topics = [], content_types = [], use_cases = [],
            added_at = ''t0'', last_used = ''t0'', use_count = 0, tags = None\<rparr>],
        active_conversation_id = Some ''docs'', last_modified = ''t0'',
        version = ''1.0.0''\<rparr>)) = [] \<and>
   snd (resolveConversationUrl True ''t1''
       \<lparr>question = ''q'', session_id = None, conversation_id = Some ''docs'',
        gemini_url = None, show_browser = None,
        browser_options = None\<rparr>
       \<lparr>conversations =
          [\<lparr>id_c = ''docs'', url = ''https://gemini.google.com/app/abc'', name = ''Docs'',
            description = ''d'', topics = [], content_types = [], use_cases = [],
            added_at = ''t0'', last_used = ''t0'', use_count = 0, tags = None\<rparr>],
        active_conversation_id = None, last_modified = ''t0'',
        version = ''1.0.0''\<rparr>) = Inr (Some ''https://gemini.google.com/app/abc'') \<and>
   fst (snd (handleAskQuestion False ''t1''
       (\<lambda>i u h. Inl (Thrown ''no browser''))
       (\<lambda>s q. Inl (Thrown ''unused'')) (\<lambda>s. 0)
       \<lparr>question = ''q'', session_id = None, conversation_id = Some ''docs'',
        gemini_url = None, show_browser = None,
        browser_options = None\<rparr>
       \<lparr>conversations =
          [\<lparr>id_c = ''docs'', url = ''https://gemini.google.com/app/abc'', name = ''Docs'',
            description = ''d'', topics = [], content_types = [], use_cases = [],
            added_at = ''t0'', last_used = ''t0'', use_count = 0, tags = None\<rparr>],
        active_conversation_id = None, last_modified = ''t0'',
        version = ''1.0.0''\<rparr>)) = [] \<and>
   snd (resolveConversationUrl True ''t1''
       \<lparr>question = ''q'', session_id = None, conversation_id = None,
        gemini_url = None, show_browser = None,
        browser_options = None\<rparr>
       \<lparr>conversations =
          [\<lparr>id_c = ''docs'', url = ''https://gemini.google.com/app/abc'', name = ''Docs'',
            description = ''d'', topics = [], content_types = [], use_cases = [],
            added_at = ''t0'', last_used = ''t0'', use_count = 0, tags = None\<rparr>],
        active_conversation_id = Some ''docs'', last_modified = ''t0'',
        version = ''1.0.0''\<rparr>) = Inr (Some ''https://gemini.google.com/app/abc'') \<and>
   snd (resolveConversationUrl True ''t1''
       \<lparr>question = ''q'', session_id = None, conversation_id = None,
        gemini_url = None, show_browser = None,
        browser_options = None\<rparr>
       \<lparr>conversations = [], active_conversation_id = None, last_modified = ''t0'',
        version = ''1.0.0''\<rparr>) = Inr None \<and>
   snd (resolveConversationUrl True ''t1''
       \<lparr>question = ''q'', session_id = None, conversation_id = Some ''docs'',
        gemini_url = Some [], show_browser = None,
        browser_options = None\<rparr>
       \<lparr>conversations =
          [\<lparr>id_c = ''docs'', url = ''https://gemini.google.com/app/abc'', name = ''Docs'',
            description = ''d'', topics = [], content_types = [], use_cases = [],
            added_at = ''t0'', last_used = ''t0'', use_count = 0, tags = None\<rparr>],
        active_conversation_id = Some ''docs'', last_modified = ''t0'',
        version = ''1.0.0''\<rparr>) = Inr (Some ''https://gemini.google.com/app/abc'') \<and>
   (\<exists>rest. fst (snd (handleAskQuestion True ''t1''
       (\<lambda>i u h. Inl (Thrown ''no browser''))
       (\<lambda>s q. Inl (Thrown ''unused'')) (\<lambda>s. 0)
       \<lparr>question = ''q'', session_id = None, conversation_id = Some ''docs'',
        gemini_url = Some ''https://gemini.google.com/app/x'', show_browser = None,
        browser_options = None\<rparr>
       \<lparr>conversations =
          [\<lparr>id_c = ''docs'', url = ''https://gemini.google.com/app/abc'', name = ''Docs'',
            description = ''d'', topics = [], content_types = [], use_cases = [],
            added_at = ''t0'', last_used = ''t0'', use_count = 0, tags = None\<rparr>],
        active_conversation_id = Some ''docs'', last_modified = ''t0'',
        version = ''1.0.0''\<rparr>)) =
     GetOrCreateSession None (Some ''https://gemini.google.com/app/x'') None # rest)"
proof -
  let ?entry = "\<lparr>id_c = ''docs'', url = ''https://gemini.google.com/app/abc'', name = ''Docs'',
            description = ''d'', topics = [], content_types = [], use_cases = [],
            added_at = ''t0'', last_used = ''t0'', use_count = 0, tags = None\<rparr>"
  let ?docs = "\<lparr>conversations = [?entry], active_conversation_id = Some ''docs'',
        last_modified = ''t0'', version = ''1.0.0''\<rparr>"
  let ?inactive = "\<lparr>conversations = [?entry], active_conversation_id = None,
        last_modified = ''t0'', version = ''1.0.0''\<rparr>"
  let ?empty = "\<lparr>conversations = [], active_conversation_id = None, last_modified = ''t0'',
        version = ''1.0.0''\<rparr>"
  let ?adhoc = "\<lparr>question = ''q'', session_id = None, conversation_id = Some ''docs'',
        gemini_url = Some ''https://gemini.google.com/app/x'', show_browser = None,
        browser_options = None\<rparr>"
  let ?nope = "\<lparr>question = ''q'', session_id = None, conversation_id = Some ''nope'',
        gemini_url = None, show_browser = None,
        browser_options = None\<rparr>"
  let ?byid = "\<lparr>question = ''q'', session_id = None, conversation_id = Some ''docs'',
        gemini_url = None, show_browser = None,
        browser_options = None\<rparr>"
  let ?plain = "\<lparr>question = ''q'', session_id = None, conversation_id = None,
        gemini_url = None, show_browser = None,
        browser_options = None\<rparr>"
  let ?emptyurl = "\<lparr>question = ''q'', session_id = None, conversation_id = Some ''docs'',
        gemini_url = Some [], show_browser = None,
        browser_options = None\<rparr>"
  let ?gocs = "\<lambda>(i :: string option) (u :: string option) (h :: bool option).
        (Inl (Thrown ''no browser'') :: thrown + Session)"
  let ?ask = "\<lambda>(s :: Session) (q :: string). (Inl (Thrown ''unused'') :: thrown + string \<times> Session)"
  let ?age = "\<lambda>s :: Session. 0 :: int"
  have h1: "truthy (gemini_url ?adhoc) = Some ''https://gemini.google.com/app/x''"
    by (simp add: truthy_def)
  have h2: "truthy (gemini_url ?nope) = None \<and> truthy (conversation_id ?nope) = Some ''nope'' \<and>
      getConversation ?docs ''nope'' = None"
    by (simp add: truthy_def getConversation_def)
  have h3: "truthy (gemini_url ?byid) = None \<and> truthy (conversation_id ?byid) = Some ''docs'' \<and>
      getConversation ?inactive ''docs'' = Some ?entry"
    by (simp add: truthy_def getConversation_def)
  have h4: "truthy (gemini_url ?plain) = None \<and> truthy (conversation_id ?plain) = None \<and>
      getActiveConversation ?docs = Some ?entry"
    by (simp add: truthy_def getActiveConversation_def getConversation_def)
  have h5: "truthy (gemini_url ?plain) = None \<and> truthy (conversation_id ?plain) = None \<and>
      getActiveConversation ?empty = None"
    by (simp add: truthy_def getActiveConversation_def)
  have h6: "GetOrCreateSession None (Some ''https://gemini.google.com/app/abc'') None \<in>
      set (fst (snd (handleAskQuestion True ''t1'' ?gocs ?ask ?age ?emptyurl ?docs)))"
    by (simp add: handleAskQuestion_def resolveConversationUrl_def truthy_def
        incrementUseCount_def saveLibrary_def overrideHeadless_def Let_def)
  note a = conversation_url_precedence[where args = ?adhoc and lib = ?docs and w = True
      and now = "''t1''" and g = "''https://gemini.google.com/app/x''"
      and lib' = ?docs and u = "Some ''https://gemini.google.com/app/x''"
      and gocs = ?gocs and ask = ?ask and age = ?age]
  note b = conversation_url_precedence[where args = ?nope and lib = ?docs and w = True
      and now = "''t1''" and c = "''nope''" and gocs = ?gocs and ask = ?ask and age = ?age]
  note c = conversation_url_precedence[where args = ?byid and lib = ?inactive
      and now = "''t1''" and c = "''docs''" and entry = ?entry
      and gocs = ?gocs and ask = ?ask and age = ?age]
  note d = conversation_url_precedence[where args = ?plain and lib = ?docs
      and now = "''t1''" and entry = ?entry and gocs = ?gocs and ask = ?ask and age = ?age]
  note e = conversation_url_precedence[where args = ?plain and lib = ?empty and w = True
      and now = "''t1''"]
  note f = conversation_url_precedence[where args = ?emptyurl and lib = ?docs and w = True
      and now = "''t1''" and gocs = ?gocs and ask = ?ask and age = ?age]
  from a[THEN conjunct1] h1
  have c1: "resolveConversationUrl True ''t1'' ?adhoc ?docs =
      (?docs, Inr (Some ''https://gemini.google.com/app/x''))" by (rule mp)
  from b[THEN conjunct2, THEN conjunct1] h2
  have "handleAskQuestion True ''t1'' ?gocs ?ask ?age ?nope ?docs =
      (?docs, [], askQuestionCatch (Err (Error (''Conversation not found in library: '' @ ''nope''))))"
    by blast
  then have c2: "fst (snd (handleAskQuestion True ''t1'' ?gocs ?ask ?age ?nope ?docs)) = []"
    by simp
  note known = c[THEN conjunct2, THEN conjunct2, THEN conjunct1, THEN mp, OF h3]
  from known[THEN conjunct1]
  have c3: "snd (resolveConversationUrl True ''t1'' ?byid ?inactive) =
      Inr (Some ''https://gemini.google.com/app/abc'')" by simp
  from known[THEN conjunct2, THEN conjunct2, THEN conjunct1]
  have c3b: "fst (snd (handleAskQuestion False ''t1'' ?gocs ?ask ?age ?byid ?inactive)) = []" .
  from d[THEN conjunct2, THEN conjunct2, THEN conjunct2, THEN conjunct1, THEN mp, OF h4,
      THEN conjunct1]
  have c4: "snd (resolveConversationUrl True ''t1'' ?plain ?docs) =
      Inr (Some ''https://gemini.google.com/app/abc'')" by simp
  from e[THEN conjunct2, THEN conjunct2, THEN conjunct2, THEN conjunct2, THEN conjunct1] h5
  have c5: "snd (resolveConversationUrl True ''t1'' ?plain ?empty) = Inr None" by simp
  from f[THEN conjunct2, THEN conjunct2, THEN conjunct2, THEN conjunct2, THEN conjunct2,
      THEN conjunct1, THEN spec, THEN spec, THEN spec, THEN mp, OF h6]
  have c6: "snd (resolveConversationUrl True ''t1'' ?emptyurl ?docs) =
      Inr (Some ''https://gemini.google.com/app/abc'')" by (rule conjunct2[THEN conjunct1])
  from a[THEN conjunct2, THEN conjunct2, THEN conjunct2, THEN conjunct2, THEN conjunct2,
      THEN conjunct2, THEN conjunct1] c1
  have c7: "\<exists>rest. fst (snd (handleAskQuestion True ''t1'' ?gocs ?ask ?age ?adhoc ?docs)) =
      GetOrCreateSession None (Some ''https://gemini.google.com/app/x'') None # rest"
    by (simp add: overrideHeadless_def)
  show ?thesis using c1 c2 c3 c3b c4 c5 c6 c7 by (intro conjI)
qed

section \<open>Removing a conversation closes its sessions\<close>

lemma removeConversation_known:
  "getConversation lib i = Some c \<Longrightarrow>
     removeConversation True now i lib =
       (fst (removeConversation True now i lib), Inr True) \<and>
     i \<notin> set (ids (fst (removeConversation True now i lib)))"
  by (auto simp: removeConversation_def saveLibrary_def Let_def ids_def)

text \<open>
  C3. When \<open>remove_conversation\<close> names a library entry and the removal succeeds, the handler
  calls \<open>closeSessionsForConversation\<close> once, with the URL of that entry, and reports the
  count it returns; the id is gone from the library. The sessions left in the registry are
  those bound to another URL, in their order and unchanged; the count is the number of
  sessions that were bound to the URL, 0 with the registry unchanged when there is none. When
  the id names no entry the handler reports "Conversation not found", calls nothing and
  leaves library and registry as they are.
\<close>

theorem remove_conversation_closes_bound_sessions:
  "(getConversation lib i = Some c
      \<longrightarrow> handleRemoveConversation True now i lib sm =
            (fst (removeConversation True now i lib),
             fst (closeSessionsForConversation sm (url c)),
             [CloseSessionsForConversation (url c)],
             \<lparr>success = True,
              data = Some \<lparr>removed = True,
                closed_sessions = snd (closeSessionsForConversation sm (url c))\<rparr>,
              error = None\<rparr>) \<and>
          i \<notin> set (ids (fst (removeConversation True now i lib)))) \<and>
   sessions (fst (closeSessionsForConversation sm u)) =
     filter (\<lambda>s. targetUrl s \<noteq> Some u) (sessions sm) \<and>
   (s \<in> set (sessions (fst (closeSessionsForConversation sm u)))
      \<longleftrightarrow> s \<in> set (sessions sm) \<and> targetUrl s \<noteq> Some u) \<and>
   snd (closeSessionsForConversation sm u) =
     length (filter (\<lambda>s. targetUrl s = Some u) (sessions sm)) \<and>
   length (sessions (fst (closeSessionsForConversation sm u))) +
     snd (closeSessionsForConversation sm u) = length (sessions sm) \<and>
   ((\<forall>s \<in> set (sessions sm). targetUrl s \<noteq> Some u)
      \<longrightarrow> closeSessionsForConversation sm u = (sm, 0)) \<and>
   (getConversation lib i = None
      \<longrightarrow> handleRemoveConversation w now i lib sm =
            (lib, sm, [],
             \<lparr>success = False, data = None,
              error = Some (''Conversation not found: '' @ i)\<rparr>))"
proof (intro conjI impI)
  assume a: "getConversation lib i = Some c"
  from removeConversation_known[OF a, of now]
  obtain l where l: "removeConversation True now i lib = (l, Inr True)" by blast
  obtain m n where mn: "closeSessionsForConversation sm (url c) = (m, n)"
    by (cases "closeSessionsForConversation sm (url c)")
  from a l mn show "handleRemoveConversation True now i lib sm =
      (fst (removeConversation True now i lib),
       fst (closeSessionsForConversation sm (url c)),
       [CloseSessionsForConversation (url c)],
       \<lparr>success = True,
        data = Some \<lparr>removed = True,
          closed_sessions = snd (closeSessionsForConversation sm (url c))\<rparr>,
        error = None\<rparr>)"
    by (simp add: handleRemoveConversation_def)
  from removeConversation_known[OF a, of now]
  show "i \<notin> set (ids (fst (removeConversation True now i lib)))" by blast
next
  show "sessions (fst (closeSessionsForConversation sm u)) =
      filter (\<lambda>s. targetUrl s \<noteq> Some u) (sessions sm)"
    by (simp add: closeSessionsForConversation_def)
next
  show "s \<in> set (sessions (fst (closeSessionsForConversation sm u)))
      \<longleftrightarrow> s \<in> set (sessions sm) \<and> targetUrl s \<noteq> Some u"
    by (simp add: closeSessionsForConversation_def)
next
  show "snd (closeSessionsForConversation sm u) =
      length (filter (\<lambda>s. targetUrl s = Some u) (sessions sm))"
    by (simp add: closeSessionsForConversation_def)
next
  have "length (filter (\<lambda>s. targetUrl s \<noteq> Some u) (sessions sm)) +
      length (filter (\<lambda>s. targetUrl s = Some u) (sessions sm)) = length (sessions sm)"
    using sum_length_filter_compl[of "\<lambda>s. targetUrl s = Some u" "sessions sm"] by simp
  then show "length (sessions (fst (closeSessionsForConversation sm u))) +
      snd (closeSessionsForConversation sm u) = length (sessions sm)"
    by (simp add: closeSessionsForConversation_def)
next
  assume a: "\<forall>s \<in> set (sessions sm). targetUrl s \<noteq> Some u"
  then have "filter (\<lambda>s. targetUrl s \<noteq> Some u) (sessions sm) = sessions sm"
    and "filter (\<lambda>s. targetUrl s = Some u) (sessions sm) = []"
    by (simp_all add: filter_id_conv filter_empty_conv)
  then show "closeSessionsForConversation sm u = (sm, 0)"
    by (simp add: closeSessionsForConversation_def)
next
  assume "getConversation lib i = None"
  then show "handleRemoveConversation w now i lib sm =
      (lib, sm, [],
       \<lparr>success = False, data = None, error = Some (''Conversation not found: '' @ i)\<rparr>)"
    by (simp add: handleRemoveConversation_def)
qed


theorem remove_conversation_closes_bound_sessions_witness:
  "handleRemoveConversation True ''t9'' ''docs''
       \<lparr>conversations =
          [\<lparr>id_c = ''docs'', url = ''https://gemini.google.com/app/abc'', name = ''Docs'',
            description = ''d'', topics = [], content_types = [], use_cases = [],
            added_at = ''t0'', last_used = ''t0'', use_count = 0, tags = None\<rparr>],
        active_conversation_id = Some ''docs'', last_modified = ''t0'',
        version = ''1.0.0''\<rparr>
       \<lparr>sessions =
          [\<lparr>sessionId = ''s1'', createdAt = 1, lastActivity = 5, messageCount = 2,
            targetUrl = Some ''https://gemini.google.com/app/abc'', status = Busy\<rparr>,
           \<lparr>sessionId = ''s2'', createdAt = 2, lastActivity = 3, messageCount = 0,
            targetUrl = Some ''https://gemini.google.com/app/other'', status = Idle\<rparr>],
        maxCount = 10, idleTimeout = 900\<rparr> =
     (\<lparr>conversations = [], active_conversation_id = None, last_modified = ''t9'',
       version = ''1.0.0''\<rparr>,
      \<lparr>sessions =
          [\<lparr>sessionId = ''s2'', createdAt = 2, lastActivity = 3, messageCount = 0,
            targetUrl = Some ''https://gemini.google.com/app/other'', status = Idle\<rparr>],
        maxCount = 10, idleTimeout = 900\<rparr>,
      [CloseSessionsForConversation ''https://gemini.google.com/app/abc''],
      \<lparr>success = True, data = Some \<lparr>removed = True, closed_sessions = 1\<rparr>,
       error = None\<rparr>) \<and>
   closeSessionsForConversation
       \<lparr>sessions =
          [\<lparr>sessionId = ''s2'', createdAt = 2, lastActivity = 3, messageCount = 0,
            targetUrl = Some ''https://gemini.google.com/app/other'', status = Idle\<rparr>],
        maxCount = 10, idleTimeout = 900\<rparr> ''https://gemini.google.com/app/abc'' =
     (\<lparr>sessions =
          [\<lparr>sessionId = ''s2'', createdAt = 2, lastActivity = 3, messageCount = 0,
            targetUrl = Some ''https://gemini.google.com/app/other'', status = Idle\<rparr>],
        maxCount = 10, idleTimeout = 900\<rparr>, 0) \<and>
   handleRemoveConversation True ''t9'' ''nope''
       \<lparr>conversations = [], active_conversation_id = None, last_modified = ''t0'',
        version = ''1.0.0''\<rparr>
       \<lparr>sessions =
          [\<lparr>sessionId = ''s2'', createdAt = 2, lastActivity = 3, messageCount = 0,
            targetUrl = Some ''https://gemini.google.com/app/other'', status = Idle\<rparr>],
        maxCount = 10, idleTimeout = 900\<rparr> =
     (\<lparr>conversations = [], active_conversation_id = None, last_modified = ''t0'',
       version = ''1.0.0''\<rparr>,
      \<lparr>sessions =
          [\<lparr>sessionId = ''s2'', createdAt = 2, lastActivity = 3, messageCount = 0,
            targetUrl = Some ''https://gemini.google.com/app/other'', status = Idle\<rparr>],
        maxCount = 10, idleTimeout = 900\<rparr>,
      [],
      \<lparr>success = False, data = None, error = Some ''Conversation not found: nope''\<rparr>)"
proof -
  let ?entry = "\<lparr>id_c = ''docs'', url = ''https://gemini.google.com/app/abc'', name = ''Docs'',
            description = ''d'', topics = [], content_types = [], use_cases = [],
            added_at = ''t0'', last_used = ''t0'', use_count = 0, tags = None\<rparr>"
  let ?docs = "\<lparr>conversations = [?entry], active_conversation_id = Some ''docs'',
        last_modified = ''t0'', version = ''1.0.0''\<rparr>"
  let ?empty = "\<lparr>conversations = [], active_conversation_id = None, last_modified = ''t0'',
        version = ''1.0.0''\<rparr>"
  let ?s1 = "\<lparr>sessionId = ''s1'', createdAt = 1, lastActivity = 5, messageCount = 2,
            targetUrl = Some ''https://gemini.google.com/app/abc'', status = Busy\<rparr>"
  let ?s2 = "\<lparr>sessionId = ''s2'', createdAt = 2, lastActivity = 3, messageCount = 0,
            targetUrl = Some ''https://gemini.google.com/app/other'', status = Idle\<rparr>"
  let ?two = "\<lparr>sessions = [?s1, ?s2], maxCount = 10, idleTimeout = 900\<rparr>"
  let ?one = "\<lparr>sessions = [?s2], maxCount = 10, idleTimeout = 900\<rparr>"
  have h1: "getConversation ?docs ''docs'' = Some ?entry" by (simp add: getConversation_def)
  have h2: "\<forall>s \<in> set (sessions ?one). targetUrl s \<noteq> Some ''https://gemini.google.com/app/abc''"
    by simp
  have h3: "getConversation ?empty ''nope'' = None" by (simp add: getConversation_def)
  note a = remove_conversation_closes_bound_sessions[where lib = ?docs and i = "''docs''"
      and c = ?entry and now = "''t9''" and sm = ?two]
  note b = remove_conversation_closes_bound_sessions[where sm = ?one
      and u = "''https://gemini.google.com/app/abc''"]
  note c = remove_conversation_closes_bound_sessions[where lib = ?empty and i = "''nope''"
      and now = "''t9''" and sm = ?one and w = True]
  from a[THEN conjunct1] h1
  have "handleRemoveConversation True ''t9'' ''docs'' ?docs ?two =
            (fst (removeConversation True ''t9'' ''docs'' ?docs),
             fst (closeSessionsForConversation ?two (url ?entry)),
             [CloseSessionsForConversation (url ?entry)],
             \<lparr>success = True,
              data = Some \<lparr>removed = True,
                closed_sessions = snd (closeSessionsForConversation ?two (url ?entry))\<rparr>,
              error = None\<rparr>)" by blast
  then have c1: "handleRemoveConversation True ''t9'' ''docs'' ?docs ?two =
      (\<lparr>conversations = [], active_conversation_id = None, last_modified = ''t9'',
        version = ''1.0.0''\<rparr>, ?one,
       [CloseSessionsForConversation ''https://gemini.google.com/app/abc''],
       \<lparr>success = True, data = Some \<lparr>removed = True, closed_sessions = 1\<rparr>, error = None\<rparr>)"
    by (simp add: removeConversation_def getConversation_def saveLibrary_def
        closeSessionsForConversation_def)
  from b[THEN conjunct2, THEN conjunct2, THEN conjunct2, THEN conjunct2, THEN conjunct2,
      THEN conjunct1] h2
  have c2: "closeSessionsForConversation ?one ''https://gemini.google.com/app/abc'' = (?one, 0)"
    by (rule mp)
  from c[THEN conjunct2, THEN conjunct2, THEN conjunct2, THEN conjunct2, THEN conjunct2,
      THEN conjunct2] h3
  have c3: "handleRemoveConversation True ''t9'' ''nope'' ?empty ?one =
      (?empty, ?one, [],
       \<lparr>success = False, data = None, error = Some ''Conversation not found: nope''\<rparr>)"
    by simp
  show ?thesis using c1 c2 c3 by (intro conjI)
qed


section \<open>Claims about the session manager\<close>

lemma sessions_closeSession:
  "sessions (fst (closeSession sm i)) = filter (\<lambda>s. sessionId s \<noteq> i) (sessions sm)"
  by (simp add: closeSession_def)

lemma sessions_fold_close:
  "sessions (fold (\<lambda>s m. fst (closeSession m (sessionId s))) xs sm) =
     filter (\<lambda>s. sessionId s \<notin> sessionId ` set xs) (sessions sm)"
proof (induction xs arbitrary: sm)
  case Nil
  then show ?case by simp
next
  case (Cons x xs)
  have "sessions (fold (\<lambda>s m. fst (closeSession m (sessionId s))) (x # xs) sm) =
      filter (\<lambda>s. sessionId s \<notin> sessionId ` set xs)
        (filter (\<lambda>s. sessionId s \<noteq> sessionId x) (sessions sm))"
    by (simp add: Cons.IH sessions_closeSession)
  also have "\<dots> = filter (\<lambda>s. sessionId s \<notin> sessionId ` set (x # xs)) (sessions sm)"
    by (auto intro: filter_cong)
  finally show ?case .
qed

lemma same_id_same_session:
  assumes "distinct (map sessionId ss)" and "a \<in> set ss" and "b \<in> set ss"
    and "sessionId a = sessionId b"
  shows "a = b"
proof -
  from assms(1) have "inj_on sessionId (set ss)" by (simp add: distinct_map)
  with assms(2-4) show ?thesis by (auto dest: inj_onD)
qed

lemma sessions_sweep:
  assumes "distinct (map sessionId (sessions sm))"
  shows "sessions (sweep now sm) =
     filter (\<lambda>s. \<not> (idleTimeout sm \<le> idleDuration now s \<and> status s = Idle)) (sessions sm)"
proof -
  have "sessions (sweep now sm) =
      filter (\<lambda>s. sessionId s \<notin> sessionId ` set (sweepExpired now sm)) (sessions sm)"
    by (simp add: sweep_def sessions_fold_close)
  also have "\<dots> =
      filter (\<lambda>s. \<not> (idleTimeout sm \<le> idleDuration now s \<and> status s = Idle)) (sessions sm)"
  proof (rule filter_cong[OF refl])
    fix s assume s: "s \<in> set (sessions sm)"
    show "(sessionId s \<notin> sessionId ` set (sweepExpired now sm)) =
        (\<not> (idleTimeout sm \<le> idleDuration now s \<and> status s = Idle))"
    proof
      assume "sessionId s \<notin> sessionId ` set (sweepExpired now sm)"
      then have "s \<notin> set (sweepExpired now sm)" by blast
      with s show "\<not> (idleTimeout sm \<le> idleDuration now s \<and> status s = Idle)"
        by (simp add: sweepExpired_def)
    next
      assume keep: "\<not> (idleTimeout sm \<le> idleDuration now s \<and> status s = Idle)"
      show "sessionId s \<notin> sessionId ` set (sweepExpired now sm)"
      proof
        assume "sessionId s \<in> sessionId ` set (sweepExpired now sm)"
        then obtain e where e: "e \<in> set (sweepExpired now sm)" "sessionId s = sessionId e"
          by blast
        then have "e \<in> set (sessions sm)" by (simp add: sweepExpired_def)
        then have "s = e" by (rule same_id_same_session[OF assms s _ e(2)])
        with e(1) keep show False by (simp add: sweepExpired_def)
      qed
    qed
  qed
  finally show ?thesis .
qed

lemma registry_ok_filter:
  "registry_ok sm \<Longrightarrow> registry_ok (sm\<lparr>sessions := filter P (sessions sm)\<rparr>)"
  by (auto simp: registry_ok_def distinct_map_filter list_all_iff)

lemma registry_ok_same_ids:
  "registry_ok sm \<Longrightarrow> map sessionId ss = map sessionId (sessions sm) \<Longrightarrow>
   list_all (\<lambda>s. status s = Idle \<or> status s = Busy) ss \<Longrightarrow>
     registry_ok (sm\<lparr>sessions := ss\<rparr>)"
  by (simp add: registry_ok_def)

lemma registry_ok_closeSession: "registry_ok sm \<Longrightarrow> registry_ok (fst (closeSession sm i))"
  by (simp add: closeSession_def registry_ok_filter)

lemma registry_ok_createSession:
  assumes "registry_ok sm"
    and "(case i of Some given \<Rightarrow> given | None \<Rightarrow> generated) \<notin> set (map sessionId (sessions sm))"
  shows "registry_ok (fst (createSession now generated acquire i u sm))"
proof (cases acquire)
  case None
  with assms show ?thesis
    by (simp add: createSession_def newSession_def registry_ok_def Let_def)
next
  case (Some e)
  with assms(1) show ?thesis by (simp add: createSession_def)
qed

lemma no_live_session_no_session:
  assumes "list_all (\<lambda>s. status s = Idle \<or> status s = Busy) ss"
    and "find (\<lambda>s. sessionId s = given \<and> (status s = Idle \<or> status s = Busy)) ss = None"
  shows "given \<notin> set (map sessionId ss)"
  using assms by (auto simp: find_None_iff list_all_iff)

lemma registry_ok_getOrCreateSession:
  assumes ok: "registry_ok sm" and fresh: "generated \<notin> set (map sessionId (sessions sm))"
  shows "registry_ok (fst (getOrCreateSession now generated acquire i u h sm))"
proof (cases "case i of None \<Rightarrow> None
    | Some given \<Rightarrow>
        find (\<lambda>s. sessionId s = given \<and> (status s = Idle \<or> status s = Busy)) (sessions sm)")
  case (Some s)
  then have s: "s \<in> set (sessions sm)"
    by (auto simp: find_Some_iff split: option.splits)
  let ?touched = "s\<lparr>targetUrl := (case u of None \<Rightarrow> targetUrl s | Some v \<Rightarrow> Some v),
      lastActivity := now\<rparr>"
  have ids: "map sessionId (map (\<lambda>x. if sessionId x = sessionId s then ?touched else x)
      (sessions sm)) = map sessionId (sessions sm)"
    by (induction "sessions sm") auto
  have live: "list_all (\<lambda>s. status s = Idle \<or> status s = Busy)
      (map (\<lambda>x. if sessionId x = sessionId s then ?touched else x) (sessions sm))"
    using ok s by (auto simp: registry_ok_def list_all_iff)
  from Some have "fst (getOrCreateSession now generated acquire i u h sm) =
      sm\<lparr>sessions := map (\<lambda>x. if sessionId x = sessionId s then ?touched else x) (sessions sm)\<rparr>"
    by (simp add: getOrCreateSession_def Let_def)
  moreover have "registry_ok (sm\<lparr>sessions :=
      map (\<lambda>x. if sessionId x = sessionId s then ?touched else x) (sessions sm)\<rparr>)"
    using ok ids live by (rule registry_ok_same_ids)
  ultimately show ?thesis by simp
next
  case None
  have new_id: "(case i of Some given \<Rightarrow> given | None \<Rightarrow> generated)
      \<notin> set (map sessionId (sessions sm))"
  proof (cases i)
    case None
    with fresh show ?thesis by simp
  next
    case (Some given)
    with \<open>(case i of None \<Rightarrow> None | Some given \<Rightarrow>
        find (\<lambda>s. sessionId s = given \<and> (status s = Idle \<or> status s = Busy)) (sessions sm))
        = None\<close>
    have "find (\<lambda>s. sessionId s = given \<and> (status s = Idle \<or> status s = Busy)) (sessions sm)
        = None" by simp
    with ok have "given \<notin> set (map sessionId (sessions sm))"
      by (intro no_live_session_no_session) (simp_all add: registry_ok_def)
    with Some show ?thesis by simp
  qed
  show ?thesis
  proof (cases "maxCount sm \<le> int (length (sessions sm))")
    case False
    with None show ?thesis
      using registry_ok_createSession[OF ok new_id]
      by (simp add: getOrCreateSession_def)
  next
    case True
    note full = this
    show ?thesis
    proof (cases "leastRecentlyActiveIdle (sessions sm)")
      case None
      with \<open>(case i of None \<Rightarrow> None | Some given \<Rightarrow>
        find (\<lambda>s. sessionId s = given \<and> (status s = Idle \<or> status s = Busy)) (sessions sm))
        = None\<close> full ok
      show ?thesis by (simp add: getOrCreateSession_def)
    next
      case (Some victim)
      let ?evicted = "fst (closeSession sm (sessionId victim))"
      have ok': "registry_ok ?evicted" using ok by (rule registry_ok_closeSession)
      have "set (map sessionId (sessions ?evicted)) \<subseteq> set (map sessionId (sessions sm))"
        by (auto simp: closeSession_def)
      with new_id have "(case i of Some given \<Rightarrow> given | None \<Rightarrow> generated)
          \<notin> set (map sessionId (sessions ?evicted))" by blast
      from registry_ok_createSession[OF ok' this]
      show ?thesis using None full Some by (simp add: getOrCreateSession_def)
    qed
  qed
qed

lemma registry_ok_beginAsk: "registry_ok sm \<Longrightarrow> registry_ok (beginAsk i sm)"
proof -
  assume ok: "registry_ok sm"
  have "map sessionId (map (\<lambda>s. if sessionId s = i \<and> status s = Idle then s\<lparr>status := Busy\<rparr>
      else s) (sessions sm)) = map sessionId (sessions sm)"
    by (induction "sessions sm") auto
  moreover have "list_all (\<lambda>s. status s = Idle \<or> status s = Busy)
      (map (\<lambda>s. if sessionId s = i \<and> status s = Idle then s\<lparr>status := Busy\<rparr>
      else s) (sessions sm))"
    using ok by (auto simp: registry_ok_def list_all_iff)
  ultimately show ?thesis
    unfolding beginAsk_def using ok by (intro registry_ok_same_ids)
qed

lemma registry_ok_endAsk: "registry_ok sm \<Longrightarrow> registry_ok (endAsk now i sm)"
proof -
  assume ok: "registry_ok sm"
  have "map sessionId (map (\<lambda>s. if sessionId s = i \<and> status s = Busy
      then s\<lparr>status := Idle, lastActivity := now, messageCount := messageCount s + 1\<rparr>
      else s) (sessions sm)) = map sessionId (sessions sm)"
    by (induction "sessions sm") auto
  moreover have "list_all (\<lambda>s. status s = Idle \<or> status s = Busy)
      (map (\<lambda>s. if sessionId s = i \<and> status s = Busy
      then s\<lparr>status := Idle, lastActivity := now, messageCount := messageCount s + 1\<rparr>
      else s) (sessions sm))"
    using ok by (auto simp: registry_ok_def list_all_iff)
  ultimately show ?thesis
    unfolding endAsk_def using ok by (intro registry_ok_same_ids)
qed

lemma fold_close_fields:
  "maxCount (fold (\<lambda>s m. fst (closeSession m (sessionId s))) xs sm) = maxCount sm \<and>
   idleTimeout (fold (\<lambda>s m. fst (closeSession m (sessionId s))) xs sm) = idleTimeout sm"
  by (induction xs arbitrary: sm) (simp_all add: closeSession_def)

lemma registry_ok_sweep: "registry_ok sm \<Longrightarrow> registry_ok (sweep now sm)"
proof -
  assume ok: "registry_ok sm"
  have "sessions (sweep now sm) =
      filter (\<lambda>s. sessionId s \<notin> sessionId ` set (sweepExpired now sm)) (sessions sm)"
    by (simp add: sweep_def sessions_fold_close)
  with ok show ?thesis by (auto simp: registry_ok_def distinct_map_filter list_all_iff)
qed

lemma reachable_registry_ok: "reachable sm \<Longrightarrow> registry_ok sm"
proof (induction rule: reachable.induct)
  case (start m t)
  show ?case by (simp add: registry_ok_def)
next
  case (get_or_create sm generated now acquire i u h)
  then show ?case by (simp add: registry_ok_getOrCreateSession)
next
  case (close sm i)
  then show ?case by (simp add: registry_ok_closeSession)
next
  case (close_for_conversation sm u)
  then show ?case by (simp add: closeSessionsForConversation_def registry_ok_filter)
next
  case (begin_ask sm i)
  then show ?case by (simp add: registry_ok_beginAsk)
next
  case (end_ask sm now i)
  then show ?case by (simp add: registry_ok_endAsk)
next
  case (sweep_tick sm now)
  then show ?case by (simp add: registry_ok_sweep)
qed

text \<open>
  C2. In every state the session manager can reach, a sweep tick leaves every busy session
  registered, whatever its age and however long ago its last activity was; a session the
  tick closes is idle and its idle duration is at least the timeout, and every such session
  is closed. The sessions that stay keep their order and are unchanged.
\<close>

theorem sweep_never_closes_busy_session:
  "reachable sm \<longrightarrow>
     (\<forall>s \<in> set (sessions sm). status s = Busy \<longrightarrow> s \<in> set (sessions (sweep now sm))) \<and>
     (\<forall>s \<in> set (sessions sm). s \<notin> set (sessions (sweep now sm))
        \<longrightarrow> status s = Idle \<and> idleTimeout sm \<le> idleDuration now s) \<and>
     (\<forall>s \<in> set (sessions sm). status s = Idle \<and> idleTimeout sm \<le> idleDuration now s
        \<longrightarrow> s \<notin> set (sessions (sweep now sm))) \<and>
     sessions (sweep now sm) =
       filter (\<lambda>s. \<not> (idleTimeout sm \<le> idleDuration now s \<and> status s = Idle)) (sessions sm)"
proof
  assume "reachable sm"
  then have "distinct (map sessionId (sessions sm))"
    using reachable_registry_ok[of sm] by (simp add: registry_ok_def)
  then have eq: "sessions (sweep now sm) =
      filter (\<lambda>s. \<not> (idleTimeout sm \<le> idleDuration now s \<and> status s = Idle)) (sessions sm)"
    by (rule sessions_sweep)
  show "(\<forall>s \<in> set (sessions sm). status s = Busy \<longrightarrow> s \<in> set (sessions (sweep now sm))) \<and>
     (\<forall>s \<in> set (sessions sm). s \<notin> set (sessions (sweep now sm))
        \<longrightarrow> status s = Idle \<and> idleTimeout sm \<le> idleDuration now s) \<and>
     (\<forall>s \<in> set (sessions sm). status s = Idle \<and> idleTimeout sm \<le> idleDuration now s
        \<longrightarrow> s \<notin> set (sessions (sweep now sm))) \<and>
     sessions (sweep now sm) =
       filter (\<lambda>s. \<not> (idleTimeout sm \<le> idleDuration now s \<and> status s = Idle)) (sessions sm)"
    unfolding eq by auto
qed


theorem sweep_never_closes_busy_session_witness:
  "reachable \<lparr>sessions =
       [\<lparr>sessionId = ''a'', createdAt = 0, lastActivity = 0, messageCount = 0,
         targetUrl = None, status = Busy\<rparr>,
        \<lparr>sessionId = ''b'', createdAt = 0, lastActivity = 0, messageCount = 0,
         targetUrl = None, status = Idle\<rparr>],
      maxCount = 10, idleTimeout = 900\<rparr> \<and>
   sessions (sweep 1000 \<lparr>sessions =
       [\<lparr>sessionId = ''a'', createdAt = 0, lastActivity = 0, messageCount = 0,
         targetUrl = None, status = Busy\<rparr>,
        \<lparr>sessionId = ''b'', createdAt = 0, lastActivity = 0, messageCount = 0,
         targetUrl = None, status = Idle\<rparr>],
      maxCount = 10, idleTimeout = 900\<rparr>) =
     [\<lparr>sessionId = ''a'', createdAt = 0, lastActivity = 0, messageCount = 0,
       targetUrl = None, status = Busy\<rparr>]"
proof -
  let ?a = "\<lparr>sessionId = ''a'', createdAt = 0, lastActivity = 0, messageCount = 0,
         targetUrl = None, status = Idle\<rparr>"
  let ?a' = "\<lparr>sessionId = ''a'', createdAt = 0, lastActivity = 0, messageCount = 0,
         targetUrl = None, status = Busy\<rparr>"
  let ?b = "\<lparr>sessionId = ''b'', createdAt = 0, lastActivity = 0, messageCount = 0,
         targetUrl = None, status = Idle\<rparr>"
  let ?sm0 = "\<lparr>sessions = [], maxCount = 10, idleTimeout = 900\<rparr>"
  let ?sm1 = "\<lparr>sessions = [?a], maxCount = 10, idleTimeout = 900\<rparr>"
  let ?sm2 = "\<lparr>sessions = [?a, ?b], maxCount = 10, idleTimeout = 900\<rparr>"
  let ?sm3 = "\<lparr>sessions = [?a', ?b], maxCount = 10, idleTimeout = 900\<rparr>"
  have r0: "reachable ?sm0" by (rule reachable.start)
  have "reachable (fst (getOrCreateSession 0 ''g1'' None (Some ''a'') None None ?sm0))"
    by (rule reachable.get_or_create[OF r0]) simp
  then have r1: "reachable ?sm1"
    by (simp add: getOrCreateSession_def createSession_def newSession_def Let_def)
  have "reachable (fst (getOrCreateSession 0 ''g2'' None (Some ''b'') None None ?sm1))"
    by (rule reachable.get_or_create[OF r1]) simp
  then have r2: "reachable ?sm2"
    by (simp add: getOrCreateSession_def createSession_def newSession_def Let_def)
  have "reachable (beginAsk ''a'' ?sm2)" by (rule reachable.begin_ask[OF r2])
  then have r3: "reachable ?sm3" by (simp add: beginAsk_def)
  from sweep_never_closes_busy_session[of ?sm3 1000] r3
  have "sessions (sweep 1000 ?sm3) =
      filter (\<lambda>s. \<not> (idleTimeout ?sm3 \<le> idleDuration 1000 s \<and> status s = Idle)) (sessions ?sm3)"
    by blast
  then have "sessions (sweep 1000 ?sm3) = [?a']" by (simp add: idleDuration_def)
  with r3 show ?thesis by simp
qed

lemma fold_least_recent:
  "fold (\<lambda>s best. if lastActivity s < lastActivity best then s else best) cs c \<in> set (c # cs) \<and>
   (\<forall>x \<in> set (c # cs).
      lastActivity (fold (\<lambda>s best. if lastActivity s < lastActivity best then s else best) cs c)
        \<le> lastActivity x)"
proof (induction cs arbitrary: c)
  case Nil
  then show ?case by simp
next
  case (Cons d ds)
  let ?c' = "if lastActivity d < lastActivity c then d else c"
  from Cons.IH[of ?c'] show ?case by (auto split: if_splits)
qed

lemma leastRecentlyActiveIdle_None:
  "leastRecentlyActiveIdle ss = None \<longleftrightarrow> (\<forall>s \<in> set ss. status s \<noteq> Idle)"
proof -
  have "leastRecentlyActiveIdle ss = None \<longleftrightarrow> filter (\<lambda>s. status s = Idle) ss = []"
    by (simp add: leastRecentlyActiveIdle_def split: list.splits)
  then show ?thesis by (simp add: filter_empty_conv)
qed

lemma leastRecentlyActiveIdle_Some:
  assumes "leastRecentlyActiveIdle ss = Some v"
  shows "v \<in> set ss \<and> status v = Idle \<and>
    (\<forall>s \<in> set ss. status s = Idle \<longrightarrow> lastActivity v \<le> lastActivity s)"
proof -
  from assms obtain c cs where ccs: "filter (\<lambda>s. status s = Idle) ss = c # cs"
    and v: "v = fold (\<lambda>s best. if lastActivity s < lastActivity best then s else best) cs c"
    by (auto simp: leastRecentlyActiveIdle_def split: list.splits)
  from fold_least_recent[of cs c] v
  have "v \<in> set (c # cs)" and "\<forall>x \<in> set (c # cs). lastActivity v \<le> lastActivity x" by simp_all
  moreover have "set (c # cs) = {s \<in> set ss. status s = Idle}"
    using ccs[symmetric] by simp
  ultimately show ?thesis by auto
qed

lemma not_registered_no_hit:
  "(case i of None \<Rightarrow> True | Some given \<Rightarrow> given \<notin> set (map sessionId ss)) \<Longrightarrow>
     (case i of None \<Rightarrow> None
      | Some given \<Rightarrow>
          find (\<lambda>s. sessionId s = given \<and> (status s = Idle \<or> status s = Busy)) ss) = None"
  by (cases i) (auto simp: find_None_iff)

lemma createSessions_below_capacity:
  "distinct (map fst reqs) \<Longrightarrow>
   set (map fst reqs) \<inter> set (map sessionId (sessions sm)) = {} \<Longrightarrow>
   int (length (sessions sm) + length reqs) \<le> maxCount sm \<Longrightarrow>
     createSessions sm reqs =
       Inr (sm\<lparr>sessions := sessions sm @ map (\<lambda>(i, now). newSession i now None) reqs\<rparr>)"
proof (induction reqs arbitrary: sm)
  case Nil
  then show ?case by simp
next
  case (Cons r reqs)
  obtain i now where r: "r = (i, now)" by (cases r)
  let ?sm' = "sm\<lparr>sessions := sessions sm @ [newSession i now None]\<rparr>"
  from Cons.prems(2) r have "i \<notin> set (map sessionId (sessions sm))" by auto
  then have miss: "find (\<lambda>s. sessionId s = i \<and> (status s = Idle \<or> status s = Busy))
      (sessions sm) = None"
    by (auto simp: find_None_iff)
  from Cons.prems(3) have room: "\<not> maxCount sm \<le> int (length (sessions sm))" by simp
  have step: "getOrCreateSession now [] None (Some i) None None sm =
      (?sm', Inr (newSession i now None))"
    using miss room by (simp add: getOrCreateSession_def createSession_def newSession_def Let_def)
  have "createSessions ?sm' reqs =
      Inr (?sm'\<lparr>sessions := sessions ?sm' @ map (\<lambda>(i, now). newSession i now None) reqs\<rparr>)"
  proof (rule Cons.IH)
    show "distinct (map fst reqs)" using Cons.prems(1) by simp
    show "set (map fst reqs) \<inter> set (map sessionId (sessions ?sm')) = {}"
      using Cons.prems(1,2) r by (auto simp: newSession_def)
    show "int (length (sessions ?sm') + length reqs) \<le> maxCount ?sm'"
      using Cons.prems(3) by simp
  qed
  with step r show ?case by simp
qed

text \<open>
  C1. For a maximum session count \<open>M\<close>, with collaborators (profile, credentials, browser
  start) that succeed: creating \<open>M\<close> sessions with distinct ids from the empty registry
  succeeds and leaves exactly these \<open>M\<close> sessions registered, all idle. With \<open>M \<ge> 1\<close>
  registered sessions, all idle, a further call for a session that is not registered succeeds:
  it closes the idle session with the least last activity and registers the new one. With
  \<open>M\<close> registered sessions, all busy, such a call fails with \<open>ResourceExhausted\<close> and the
  registry stays as it is.
\<close>

theorem capacity_eviction_and_exhaustion:
  "(distinct (map fst reqs) \<and> length reqs = M
      \<longrightarrow> (\<exists>sm'. createSessions \<lparr>sessions = [], maxCount = int M, idleTimeout = t\<rparr> reqs = Inr sm' \<and>
             map sessionId (sessions sm') = map fst reqs \<and>
             length (sessions sm') = M \<and>
             list_all (\<lambda>s. status s = Idle) (sessions sm'))) \<and>
   (1 \<le> M \<and> maxCount sm = int M \<and> length (sessions sm) = M \<and>
    list_all (\<lambda>s. status s = Idle) (sessions sm) \<and>
    (case i of None \<Rightarrow> True | Some given \<Rightarrow> given \<notin> set (map sessionId (sessions sm)))
      \<longrightarrow> (\<exists>victim created.
             victim \<in> set (sessions sm) \<and> status victim = Idle \<and>
             list_all (\<lambda>s. lastActivity victim \<le> lastActivity s) (sessions sm) \<and>
             getOrCreateSession now generated None i u h sm =
               (sm\<lparr>sessions :=
                     filter (\<lambda>s. sessionId s \<noteq> sessionId victim) (sessions sm) @ [created]\<rparr>,
                Inr created) \<and>
             created = newSession (case i of Some given \<Rightarrow> given | None \<Rightarrow> generated) now u)) \<and>
   (maxCount sm = int M \<and> length (sessions sm) = M \<and>
    list_all (\<lambda>s. status s = Busy) (sessions sm) \<and>
    (case i of None \<Rightarrow> True | Some given \<Rightarrow> given \<notin> set (map sessionId (sessions sm)))
      \<longrightarrow> (\<exists>msg. getOrCreateSession now generated acquire i u h sm =
                    (sm, Inl (ResourceExhausted msg))))"
proof (intro conjI impI)
  assume a: "distinct (map fst reqs) \<and> length reqs = M"
  let ?sm0 = "\<lparr>sessions = [], maxCount = int M, idleTimeout = t\<rparr>"
  have "createSessions ?sm0 reqs =
      Inr (?sm0\<lparr>sessions := sessions ?sm0 @ map (\<lambda>(i, now). newSession i now None) reqs\<rparr>)"
    using a by (intro createSessions_below_capacity) simp_all
  moreover have "map sessionId (map (\<lambda>(i, now). newSession i now None) reqs) = map fst reqs"
    by (induction reqs) (auto simp: newSession_def)
  moreover have "list_all (\<lambda>s. status s = Idle) (map (\<lambda>(i, now). newSession i now None) reqs)"
    by (induction reqs) (auto simp: newSession_def)
  ultimately show "\<exists>sm'. createSessions ?sm0 reqs = Inr sm' \<and>
             map sessionId (sessions sm') = map fst reqs \<and>
             length (sessions sm') = M \<and>
             list_all (\<lambda>s. status s = Idle) (sessions sm')"
    using a by simp
next
  assume a: "1 \<le> M \<and> maxCount sm = int M \<and> length (sessions sm) = M \<and>
    list_all (\<lambda>s. status s = Idle) (sessions sm) \<and>
    (case i of None \<Rightarrow> True | Some given \<Rightarrow> given \<notin> set (map sessionId (sessions sm)))"
  then have miss: "(case i of None \<Rightarrow> None
      | Some given \<Rightarrow>
          find (\<lambda>s. sessionId s = given \<and> (status s = Idle \<or> status s = Busy)) (sessions sm))
      = None"
    by (intro not_registered_no_hit) simp
  from a have "sessions sm \<noteq> []" by auto
  then obtain s0 where "s0 \<in> set (sessions sm)" by (cases "sessions sm") auto
  with a have "\<not> (\<forall>s \<in> set (sessions sm). status s \<noteq> Idle)" by (auto simp: list_all_iff)
  then obtain victim where v: "leastRecentlyActiveIdle (sessions sm) = Some victim"
    using leastRecentlyActiveIdle_None[of "sessions sm"] by (cases "leastRecentlyActiveIdle (sessions sm)") auto
  from leastRecentlyActiveIdle_Some[OF v] a
  have vp: "victim \<in> set (sessions sm)" "status victim = Idle"
    "list_all (\<lambda>s. lastActivity victim \<le> lastActivity s) (sessions sm)"
    by (auto simp: list_all_iff)
  have "getOrCreateSession now generated None i u h sm =
      (sm\<lparr>sessions := filter (\<lambda>s. sessionId s \<noteq> sessionId victim) (sessions sm) @
         [newSession (case i of Some given \<Rightarrow> given | None \<Rightarrow> generated) now u]\<rparr>,
       Inr (newSession (case i of Some given \<Rightarrow> given | None \<Rightarrow> generated) now u))"
    using miss a v
    by (simp add: getOrCreateSession_def createSession_def closeSession_def Let_def)
  with vp show "\<exists>victim created.
             victim \<in> set (sessions sm) \<and> status victim = Idle \<and>
             list_all (\<lambda>s. lastActivity victim \<le> lastActivity s) (sessions sm) \<and>
             getOrCreateSession now generated None i u h sm =
               (sm\<lparr>sessions :=
                     filter (\<lambda>s. sessionId s \<noteq> sessionId victim) (sessions sm) @ [created]\<rparr>,
                Inr created) \<and>
             created = newSession (case i of Some given \<Rightarrow> given | None \<Rightarrow> generated) now u"
    by blast
next
  assume a: "maxCount sm = int M \<and> length (sessions sm) = M \<and>
    list_all (\<lambda>s. status s = Busy) (sessions sm) \<and>
    (case i of None \<Rightarrow> True | Some given \<Rightarrow> given \<notin> set (map sessionId (sessions sm)))"
  then have miss: "(case i of None \<Rightarrow> None
      | Some given \<Rightarrow>
          find (\<lambda>s. sessionId s = given \<and> (status s = Idle \<or> status s = Busy)) (sessions sm))
      = None"
    by (intro not_registered_no_hit) simp
  from a have "\<forall>s \<in> set (sessions sm). status s \<noteq> Idle" by (auto simp: list_all_iff)
  then have "leastRecentlyActiveIdle (sessions sm) = None"
    by (simp add: leastRecentlyActiveIdle_None)
  with miss a show "\<exists>msg. getOrCreateSession now generated acquire i u h sm =
      (sm, Inl (ResourceExhausted msg))"
    by (simp add: getOrCreateSession_def)
qed


theorem capacity_eviction_and_exhaustion_witness:
  "(\<exists>sm'. createSessions \<lparr>sessions = [], maxCount = 2, idleTimeout = 900\<rparr>
             [(''a'', 1), (''b'', 2)] = Inr sm' \<and>
          map sessionId (sessions sm') = [''a'', ''b''] \<and>
          list_all (\<lambda>s. status s = Idle) (sessions sm')) \<and>
   (\<exists>victim created.
      victim \<in> set [newSession ''a'' 1 None, newSession ''b'' 2 None] \<and>
      list_all (\<lambda>s. lastActivity victim \<le> lastActivity s)
        [newSession ''a'' 1 None, newSession ''b'' 2 None] \<and>
      getOrCreateSession 5 ''generated'' None (Some ''c'') None None
          \<lparr>sessions = [newSession ''a'' 1 None, newSession ''b'' 2 None],
           maxCount = 2, idleTimeout = 900\<rparr> =
        (\<lparr>sessions = filter (\<lambda>s. sessionId s \<noteq> sessionId victim)
             [newSession ''a'' 1 None, newSession ''b'' 2 None] @ [created],
          maxCount = 2, idleTimeout = 900\<rparr>, Inr created) \<and>
      created = newSession ''c'' 5 None) \<and>
   (\<exists>msg. getOrCreateSession 5 ''generated'' None (Some ''c'') None None
          \<lparr>sessions = [(newSession ''a'' 1 None)\<lparr>status := Busy\<rparr>,
                       (newSession ''b'' 2 None)\<lparr>status := Busy\<rparr>],
           maxCount = 2, idleTimeout = 900\<rparr> =
        (\<lparr>sessions = [(newSession ''a'' 1 None)\<lparr>status := Busy\<rparr>,
                       (newSession ''b'' 2 None)\<lparr>status := Busy\<rparr>],
           maxCount = 2, idleTimeout = 900\<rparr>, Inl (ResourceExhausted msg)))"
proof -
  let ?idle = "\<lparr>sessions = [newSession ''a'' 1 None, newSession ''b'' 2 None],
           maxCount = 2, idleTimeout = 900\<rparr>"
  let ?busy = "\<lparr>sessions = [(newSession ''a'' 1 None)\<lparr>status := Busy\<rparr>,
                       (newSession ''b'' 2 None)\<lparr>status := Busy\<rparr>],
           maxCount = 2, idleTimeout = 900\<rparr>"
  have h1: "distinct (map fst [(''a'', 1 :: int), (''b'', 2)]) \<and>
      length [(''a'', 1 :: int), (''b'', 2)] = 2"
    by simp
  have h2: "1 \<le> (2 :: nat) \<and> maxCount ?idle = int 2 \<and> length (sessions ?idle) = 2 \<and>
      list_all (\<lambda>s. status s = Idle) (sessions ?idle) \<and>
      (case Some ''c'' of None \<Rightarrow> True
       | Some given \<Rightarrow> given \<notin> set (map sessionId (sessions ?idle)))"
    by (simp add: newSession_def)
  have h3: "maxCount ?busy = int 2 \<and> length (sessions ?busy) = 2 \<and>
      list_all (\<lambda>s. status s = Busy) (sessions ?busy) \<and>
      (case Some ''c'' of None \<Rightarrow> True
       | Some given \<Rightarrow> given \<notin> set (map sessionId (sessions ?busy)))"
    by (simp add: newSession_def)
  note a = capacity_eviction_and_exhaustion[where reqs = "[(''a'', 1), (''b'', 2)]" and M = 2
      and t = 900]
  note b = capacity_eviction_and_exhaustion[where M = 2 and sm = ?idle and i = "Some ''c''"
      and now = 5 and generated = "''generated''" and u = None and h = None]
  note c = capacity_eviction_and_exhaustion[where M = 2 and sm = ?busy and i = "Some ''c''"
      and now = 5 and generated = "''generated''" and u = None and h = None and acquire = None]
  from a[THEN conjunct1, THEN mp, OF h1]
  obtain sm' where s1: "createSessions \<lparr>sessions = [], maxCount = int 2, idleTimeout = 900\<rparr>
             [(''a'', 1), (''b'', 2)] = Inr sm'"
    and s2: "map sessionId (sessions sm') = map fst [(''a'', 1 :: int), (''b'', 2)]"
    and s3: "list_all (\<lambda>s. status s = Idle) (sessions sm')"
    by blast
  from s1 have s1': "createSessions \<lparr>sessions = [], maxCount = 2, idleTimeout = 900\<rparr>
             [(''a'', 1), (''b'', 2)] = Inr sm'" by simp
  from s2 have s2': "map sessionId (sessions sm') = [''a'', ''b'']" by simp
  have c1: "\<exists>sm'. createSessions \<lparr>sessions = [], maxCount = 2, idleTimeout = 900\<rparr>
             [(''a'', 1), (''b'', 2)] = Inr sm' \<and>
          map sessionId (sessions sm') = [''a'', ''b''] \<and>
          list_all (\<lambda>s. status s = Idle) (sessions sm')"
    by (rule exI[of _ sm'], intro conjI) (rule s1' s2' s3)+
  from b[THEN conjunct2, THEN conjunct1, THEN mp, OF h2]
  obtain victim created where v1: "victim \<in> set (sessions ?idle)"
    and v2: "list_all (\<lambda>s. lastActivity victim \<le> lastActivity s) (sessions ?idle)"
    and v3: "getOrCreateSession 5 ''generated'' None (Some ''c'') None None ?idle =
        (?idle\<lparr>sessions :=
             filter (\<lambda>s. sessionId s \<noteq> sessionId victim) (sessions ?idle) @ [created]\<rparr>,
         Inr created)"
    and v4: "created = newSession (case Some ''c'' of Some given \<Rightarrow> given
                                   | None \<Rightarrow> ''generated'') 5 None"
    by blast
  from v1 have v1': "victim \<in> set [newSession ''a'' 1 None, newSession ''b'' 2 None]"
    by simp
  from v2 have v2': "list_all (\<lambda>s. lastActivity victim \<le> lastActivity s)
        [newSession ''a'' 1 None, newSession ''b'' 2 None]"
    by simp
  from v3 have v3': "getOrCreateSession 5 ''generated'' None (Some ''c'') None None ?idle =
        (\<lparr>sessions = filter (\<lambda>s. sessionId s \<noteq> sessionId victim)
             [newSession ''a'' 1 None, newSession ''b'' 2 None] @ [created],
          maxCount = 2, idleTimeout = 900\<rparr>, Inr created)"
    by simp
  from v4 have v4': "created = newSession ''c'' 5 None" by simp
  have c2: "\<exists>victim created.
      victim \<in> set [newSession ''a'' 1 None, newSession ''b'' 2 None] \<and>
      list_all (\<lambda>s. lastActivity victim \<le> lastActivity s)
        [newSession ''a'' 1 None, newSession ''b'' 2 None] \<and>
      getOrCreateSession 5 ''generated'' None (Some ''c'') None None ?idle =
        (\<lparr>sessions = filter (\<lambda>s. sessionId s \<noteq> sessionId victim)
             [newSession ''a'' 1 None, newSession ''b'' 2 None] @ [created],
          maxCount = 2, idleTimeout = 900\<rparr>, Inr created) \<and>
      created = newSession ''c'' 5 None"
    by (rule exI[of _ victim], rule exI[of _ created], intro conjI) (rule v1' v2' v3' v4')+
  from c[THEN conjunct2, THEN conjunct2, THEN mp, OF h3]
  have c3: "\<exists>msg. getOrCreateSession 5 ''generated'' None (Some ''c'') None None ?busy =
        (?busy, Inl (ResourceExhausted msg))" .
  show ?thesis using c1 c2 c3 by (intro conjI)
qed

section \<open>Cleanup: preview and best-effort deletion\<close>

lemma exists_on_removePath:
  "exists_on (removePath p d) q = (exists_on d q \<and> \<not> covers p q)"
  by (auto simp: exists_on_def removePath_def)












end
